theory Spec2Isabelle
  imports Main "HOL-Library.Sublist" "HOL-Library.Word"
begin

section \<open>Go library functions used by the compiler core\<close>


definition unicode_IsSpace :: "char \<Rightarrow> bool" where
  "unicode_IsSpace c = ((of_char c :: nat) \<in> set [9, 10, 11, 12, 13, 32])"

definition unicode_IsUpper :: "char \<Rightarrow> bool" where
  "unicode_IsUpper c = (65 \<le> (of_char c :: nat) \<and> (of_char c :: nat) \<le> 90)"

definition unicode_IsLower :: "char \<Rightarrow> bool" where
  "unicode_IsLower c = (97 \<le> (of_char c :: nat) \<and> (of_char c :: nat) \<le> 122)"

definition unicode_ToLower :: "char \<Rightarrow> char" where
  "unicode_ToLower c = (if unicode_IsUpper c then char_of ((of_char c :: nat) + 32) else c)"

definition unicode_ToUpper :: "char \<Rightarrow> char" where
  "unicode_ToUpper c = (if unicode_IsLower c then char_of ((of_char c :: nat) - 32) else c)"

definition isDigit :: "char \<Rightarrow> bool" where
  "isDigit c = (48 \<le> (of_char c :: nat) \<and> (of_char c :: nat) \<le> 57)"

text \<open>The regular-expression class \<open>\w\<close> of Go's regexp package: \<open>[0-9A-Za-z_]\<close>.\<close>

definition isWord :: "char \<Rightarrow> bool" where
  "isWord c = (isDigit c \<or> unicode_IsUpper c \<or> unicode_IsLower c \<or> c = CHR ''_'')"

text \<open>The regular-expression class \<open>\s\<close> of Go's regexp package: \<open>[\t\n\f\r ]\<close>.\<close>

definition isReSpace :: "char \<Rightarrow> bool" where
  "isReSpace c = ((of_char c :: nat) \<in> set [9, 10, 12, 13, 32])"

fun strings_Join :: "string list \<Rightarrow> string \<Rightarrow> string" where
  "strings_Join [] sep = []"
| "strings_Join [x] sep = x"
| "strings_Join (x # y # ys) sep = x @ sep @ strings_Join (y # ys) sep"

definition strings_HasPrefix :: "string \<Rightarrow> string \<Rightarrow> bool" where
  "strings_HasPrefix s p = (take (length p) s = p)"

definition strings_HasSuffix :: "string \<Rightarrow> string \<Rightarrow> bool" where
  "strings_HasSuffix s suf =
     (length suf \<le> length s \<and> drop (length s - length suf) s = suf)"

definition strings_TrimPrefix :: "string \<Rightarrow> string \<Rightarrow> string" where
  "strings_TrimPrefix s p = (if strings_HasPrefix s p then drop (length p) s else s)"

definition strings_TrimSuffix :: "string \<Rightarrow> string \<Rightarrow> string" where
  "strings_TrimSuffix s suf =
     (if strings_HasSuffix s suf then take (length s - length suf) s else s)"

definition strings_TrimSpace :: "string \<Rightarrow> string" where
  "strings_TrimSpace s =
     rev (dropWhile unicode_IsSpace (rev (dropWhile unicode_IsSpace s)))"

text \<open>\<open>strings.Trim(s, cutset)\<close>: all leading and trailing characters of the cutset go.\<close>

definition strings_Trim :: "string \<Rightarrow> string \<Rightarrow> string" where
  "strings_Trim s cutset =
     rev (dropWhile (\<lambda>c. c \<in> set cutset) (rev (dropWhile (\<lambda>c. c \<in> set cutset) s)))"

text \<open>
  \<open>strings.Fields\<close>: the maximal runs of non-space characters, in order. \<open>cur\<close> is the
  run being read.
\<close>

fun fieldsLoop :: "string \<Rightarrow> string \<Rightarrow> string list" where
  "fieldsLoop cur [] = (if cur = [] then [] else [cur])"
| "fieldsLoop cur (c # cs) =
     (if unicode_IsSpace c
      then (if cur = [] then fieldsLoop [] cs else cur # fieldsLoop [] cs)
      else fieldsLoop (cur @ [c]) cs)"

definition strings_Fields :: "string \<Rightarrow> string list" where
  "strings_Fields s = fieldsLoop [] s"

text \<open>\<open>strings.Split(s, sep)\<close> for a one-character separator.\<close>

fun splitLoop :: "char \<Rightarrow> string \<Rightarrow> string \<Rightarrow> string list" where
  "splitLoop sep cur [] = [cur]"
| "splitLoop sep cur (c # cs) =
     (if c = sep then cur # splitLoop sep [] cs else splitLoop sep (cur @ [c]) cs)"

definition strings_Split :: "string \<Rightarrow> char \<Rightarrow> string list" where
  "strings_Split s sep = splitLoop sep [] s"

definition strings_ToUpper :: "string \<Rightarrow> string" where
  "strings_ToUpper s = map unicode_ToUpper s"

subsection \<open>Formatting\<close>

text \<open>
  Decimal rendering of Go's \<open>%d\<close>. Go's \<open>int\<close> is a 64-bit integer; it is modelled
  as \<open>int\<close>, whose decimal text agrees with Go's on the whole 64-bit range. No
  arithmetic of the modelled code can overflow: the only computed integer is the
  placeholder index, bounded by the number of where-clauses.
\<close>

fun string_of_nat :: "nat \<Rightarrow> string" where
  "string_of_nat n =
     (if n < 10 then [''0123456789'' ! n]
      else string_of_nat (n div 10) @ [''0123456789'' ! (n mod 10)])"

declare string_of_nat.simps [simp del]

definition Itoa :: "int \<Rightarrow> string" where
  "Itoa i = (if i < 0 then ''-'' @ string_of_nat (nat (- i)) else string_of_nat (nat i))"

text \<open>
  A value of Go's \<open>interface{}\<close>: \<open>nil\<close>, a bool, an integer or a string (the
  dynamic types the parser and the scenarios produce).
\<close>

datatype val = VNil | VBool bool | VInt int | VStr string

definition fmt_t :: "bool \<Rightarrow> string" where
  "fmt_t b = (if b then ''true'' else ''false'')"

fun fmt_v :: "val \<Rightarrow> string" where
  "fmt_v VNil = ''<nil>''"
| "fmt_v (VBool b) = fmt_t b"
| "fmt_v (VInt i) = Itoa i"
| "fmt_v (VStr s) = s"

datatype error = Err string

section \<open>Data model (core/types.go)\<close>

record FieldSchema =
  Name_f :: string
  Type_f :: string
  Optional :: bool
  Unique :: bool
  Primary :: bool
  AutoGen :: bool
  Default :: val
  DatabaseType :: string

record Relation =
  Name_r :: string
  Type_r :: string
  Model_r :: string
  Fields_r :: "string list"
  References_r :: "string list"

record ModelSchema =
  Name_m :: string
  TableName :: string
  Fields_m :: "FieldSchema list"
  Relations :: "Relation list"

record Schema =
  Models :: "ModelSchema list"

record WhereClause =
  Field_w :: string
  Operator_w :: string
  Value_w :: val
  Not_w :: bool

record OrderClause =
  Field_o :: string
  Direction_o :: string

record Query =
  Table :: string
  Fields :: "string list"
  Wheres :: "WhereClause list"
  Orders :: "OrderClause list"
  LimitVal :: "int option"
  OffsetVal :: "int option"
  Includes :: "string list"

section \<open>Type mapper and naming helpers (core/utils.go)\<close>

text \<open>
  \<open>ToSnakeCase\<close> ranges over the runes of the name, \<open>i\<close> being the byte offset of
  the rune. The model ranges over bytes: it is the Go function on ASCII names, and is
  used under the hypothesis \<open>ascii\<close> only.
\<close>

fun snakeLoop :: "nat \<Rightarrow> string \<Rightarrow> string \<Rightarrow> string" where
  "snakeLoop i [] result = result"
| "snakeLoop i (r # rs) result =
     snakeLoop (i + 1) rs
       ((if i > 0 \<and> unicode_IsUpper r then result @ ''_'' else result) @ [unicode_ToLower r])"

definition ToSnakeCase :: "string \<Rightarrow> string" where
  "ToSnakeCase str = snakeLoop 0 str []"

definition ToPlural :: "string \<Rightarrow> string" where
  "ToPlural str =
     (if strings_HasSuffix str ''y'' then take (length str - 1) str @ ''ies''
      else if strings_HasSuffix str ''s'' \<or> strings_HasSuffix str ''x'' \<or>
              strings_HasSuffix str ''z'' \<or> strings_HasSuffix str ''ch'' \<or>
              strings_HasSuffix str ''sh''
      then str @ ''es''
      else str @ ''s'')"

definition GetTableName :: "string \<Rightarrow> string" where
  "GetTableName modelName = (let snake = ToSnakeCase modelName in ToPlural snake)"

definition getPostgresType :: "string \<Rightarrow> string" where
  "getPostgresType goType =
     (if goType = ''int'' \<or> goType = ''Int'' then ''INTEGER''
      else if goType = ''int64'' then ''BIGINT''
      else if goType = ''string'' \<or> goType = ''String'' then ''VARCHAR(255)''
      else if goType = ''bool'' \<or> goType = ''Boolean'' then ''BOOLEAN''
      else if goType = ''float64'' \<or> goType = ''Float'' then ''DOUBLE PRECISION''
      else if goType = ''time.Time'' \<or> goType = ''DateTime'' then ''TIMESTAMP''
      else ''TEXT'')"

definition getMySQLType :: "string \<Rightarrow> string" where
  "getMySQLType goType =
     (if goType = ''int'' \<or> goType = ''Int'' then ''INT''
      else if goType = ''int64'' then ''BIGINT''
      else if goType = ''string'' \<or> goType = ''String'' then ''VARCHAR(255)''
      else if goType = ''bool'' \<or> goType = ''Boolean'' then ''BOOLEAN''
      else if goType = ''float64'' \<or> goType = ''Float'' then ''DOUBLE''
      else if goType = ''time.Time'' \<or> goType = ''DateTime'' then ''TIMESTAMP''
      else ''TEXT'')"

definition getSQLiteType :: "string \<Rightarrow> string" where
  "getSQLiteType goType =
     (if goType = ''int'' \<or> goType = ''Int'' \<or> goType = ''int64'' then ''INTEGER''
      else if goType = ''string'' \<or> goType = ''String'' then ''TEXT''
      else if goType = ''bool'' \<or> goType = ''Boolean'' then ''INTEGER''
      else if goType = ''float64'' \<or> goType = ''Float'' then ''REAL''
      else if goType = ''time.Time'' \<or> goType = ''DateTime'' then ''DATETIME''
      else ''TEXT'')"

definition GetSQLType :: "string \<Rightarrow> string \<Rightarrow> string" where
  "GetSQLType goType driver =
     (let baseType = strings_TrimSuffix goType ''?'' in
      if driver = ''postgres'' then getPostgresType baseType
      else if driver = ''mysql'' then getMySQLType baseType
      else if driver = ''sqlite'' then getSQLiteType baseType
      else getSQLiteType baseType)"

section \<open>Query compilers (drivers)\<close>

text \<open>
  The where-loop of \<open>PostgresDriver.BuildQuery\<close>. The loop state is
  \<open>(whereParts, args, argIndex)\<close>.
\<close>

fun pgWhereLoop ::
  "WhereClause list \<Rightarrow> string list \<times> val list \<times> int \<Rightarrow> string list \<times> val list \<times> int" where
  "pgWhereLoop [] st = st"
| "pgWhereLoop (w # ws) (whereParts, args, argIndex) =
     (let operator = (if Not_w w then ''NOT '' @ Operator_w w else Operator_w w) in
      if Operator_w w = ''IN''
      then pgWhereLoop ws
             (whereParts @ [Field_w w @ '' '' @ operator @ '' '' @ fmt_v (Value_w w)],
              args, argIndex)
      else pgWhereLoop ws
             (whereParts @ [Field_w w @ '' '' @ operator @ '' $'' @ Itoa argIndex],
              args @ [Value_w w], argIndex + 1))"

text \<open>
  The where-loop of \<open>SQLiteDriver.BuildQuery\<close>, \<open>MySQLDriver.BuildQuery\<close> and
  \<open>QueryExecutor.buildSelectQueryFromQuery\<close>: the three loops are the same text. The
  loop state is \<open>(whereParts, args)\<close>.
\<close>

fun whereLoop ::
  "WhereClause list \<Rightarrow> string list \<times> val list \<Rightarrow> string list \<times> val list" where
  "whereLoop [] st = st"
| "whereLoop (w # ws) (whereParts, args) =
     (let operator = (if Not_w w then ''NOT '' @ Operator_w w else Operator_w w) in
      if Operator_w w = ''IN''
      then whereLoop ws
             (whereParts @ [Field_w w @ '' '' @ operator @ '' '' @ fmt_v (Value_w w)], args)
      else whereLoop ws
             (whereParts @ [Field_w w @ '' '' @ operator @ '' ?''], args @ [Value_w w]))"

text \<open>The order-loop, the same in every compiler.\<close>

fun orderLoop :: "OrderClause list \<Rightarrow> string list \<Rightarrow> string list" where
  "orderLoop [] orderParts = orderParts"
| "orderLoop (order # os) orderParts =
     orderLoop os (orderParts @ [Field_o order @ '' '' @ Direction_o order])"

definition PostgresDriver_BuildQuery :: "Query \<Rightarrow> string \<times> val list" where
  "PostgresDriver_BuildQuery query =
     (let fields = strings_Join (Fields query) '', '';
          parts = [''SELECT '' @ fields @ '' FROM '' @ Table query];
          (parts, args) =
            (if length (Wheres query) > 0
             then (let (whereParts, args, argIndex) = pgWhereLoop (Wheres query) ([], [], 1)
                   in (parts @ [''WHERE '' @ strings_Join whereParts '' AND ''], args))
             else (parts, []));
          parts =
            (if length (Orders query) > 0
             then parts @ [''ORDER BY '' @ strings_Join (orderLoop (Orders query) []) '', '']
             else parts);
          parts =
            (case LimitVal query of None \<Rightarrow> parts
             | Some n \<Rightarrow> parts @ [''LIMIT '' @ Itoa n]);
          parts =
            (case OffsetVal query of None \<Rightarrow> parts
             | Some n \<Rightarrow> parts @ [''OFFSET '' @ Itoa n])
      in (strings_Join parts '' '', args))"

definition SQLiteDriver_BuildQuery :: "Query \<Rightarrow> string \<times> val list" where
  "SQLiteDriver_BuildQuery query =
     (let fields = strings_Join (Fields query) '', '';
          parts = [''SELECT '' @ fields @ '' FROM '' @ Table query];
          (parts, args) =
            (if length (Wheres query) > 0
             then (let (whereParts, args) = whereLoop (Wheres query) ([], [])
                   in (parts @ [''WHERE '' @ strings_Join whereParts '' AND ''], args))
             else (parts, []));
          parts =
            (if length (Orders query) > 0
             then parts @ [''ORDER BY '' @ strings_Join (orderLoop (Orders query) []) '', '']
             else parts);
          parts =
            (case LimitVal query of None \<Rightarrow> parts
             | Some n \<Rightarrow> parts @ [''LIMIT '' @ Itoa n]);
          parts =
            (case OffsetVal query of None \<Rightarrow> parts
             | Some n \<Rightarrow> parts @ [''OFFSET '' @ Itoa n])
      in (strings_Join parts '' '', args))"

definition MySQLDriver_BuildQuery :: "Query \<Rightarrow> string \<times> val list" where
  "MySQLDriver_BuildQuery query =
     (let fields = strings_Join (Fields query) '', '';
          parts = [''SELECT '' @ fields @ '' FROM '' @ Table query];
          (parts, args) =
            (if length (Wheres query) > 0
             then (let (whereParts, args) = whereLoop (Wheres query) ([], [])
                   in (parts @ [''WHERE '' @ strings_Join whereParts '' AND ''], args))
             else (parts, []));
          parts =
            (if length (Orders query) > 0
             then parts @ [''ORDER BY '' @ strings_Join (orderLoop (Orders query) []) '', '']
             else parts);
          parts =
            (case LimitVal query of None \<Rightarrow> parts
             | Some n \<Rightarrow> parts @ [''LIMIT '' @ Itoa n]);
          parts =
            (case OffsetVal query of None \<Rightarrow> parts
             | Some n \<Rightarrow> parts @ [''OFFSET '' @ Itoa n])
      in (strings_Join parts '' '', args))"

section \<open>DDL generators (drivers)\<close>

definition PostgresDriver_buildColumnDefinition :: "FieldSchema \<Rightarrow> string" where
  "PostgresDriver_buildColumnDefinition field =
     (let parts = [Name_f field];
          sqlType = GetSQLType (Type_f field) ''postgres'';
          sqlType = (if Primary field \<and> AutoGen field then ''SERIAL'' else sqlType);
          parts = parts @ [sqlType];
          parts = (if Primary field then parts @ [''PRIMARY KEY''] else parts);
          parts = (if Unique field \<and> \<not> Primary field then parts @ [''UNIQUE''] else parts);
          parts = (if \<not> Optional field \<and> \<not> Primary field then parts @ [''NOT NULL'']
                   else parts);
          parts =
            (case Default field of
               VNil \<Rightarrow> parts
             | VStr v \<Rightarrow>
                 (if v = ''CURRENT_TIMESTAMP'' then parts @ [''DEFAULT CURRENT_TIMESTAMP'']
                  else parts @ [''DEFAULT '' @ [CHR 0x27] @ v @ [CHR 0x27]])
             | VBool v \<Rightarrow> parts @ [''DEFAULT '' @ fmt_t v]
             | v \<Rightarrow> parts @ [''DEFAULT '' @ fmt_v v])
      in strings_Join parts '' '')"

definition MySQLDriver_buildColumnDefinition :: "FieldSchema \<Rightarrow> string" where
  "MySQLDriver_buildColumnDefinition field =
     (let parts = [Name_f field];
          sqlType = GetSQLType (Type_f field) ''mysql'';
          sqlType = (if Primary field \<and> AutoGen field then ''INT AUTO_INCREMENT'' else sqlType);
          parts = parts @ [sqlType];
          parts = (if Primary field then parts @ [''PRIMARY KEY''] else parts);
          parts = (if Unique field \<and> \<not> Primary field then parts @ [''UNIQUE''] else parts);
          parts = (if \<not> Optional field \<and> \<not> Primary field then parts @ [''NOT NULL'']
                   else parts);
          parts =
            (case Default field of
               VNil \<Rightarrow> parts
             | VStr v \<Rightarrow>
                 (if v = ''CURRENT_TIMESTAMP'' then parts @ [''DEFAULT CURRENT_TIMESTAMP'']
                  else parts @ [''DEFAULT '' @ [CHR 0x27] @ v @ [CHR 0x27]])
             | VBool v \<Rightarrow> parts @ [''DEFAULT '' @ fmt_t v]
             | v \<Rightarrow> parts @ [''DEFAULT '' @ fmt_v v])
      in strings_Join parts '' '')"

definition SQLiteDriver_buildColumnDefinition :: "FieldSchema \<Rightarrow> string" where
  "SQLiteDriver_buildColumnDefinition field =
     (let parts = [Name_f field];
          sqlType = GetSQLType (Type_f field) ''sqlite'';
          sqlType = (if Primary field \<and> AutoGen field then ''INTEGER'' else sqlType);
          parts = parts @ [sqlType];
          parts =
            (if Primary field
             then (let parts = parts @ [''PRIMARY KEY'']
                   in if AutoGen field then parts @ [''AUTOINCREMENT''] else parts)
             else parts);
          parts = (if Unique field \<and> \<not> Primary field then parts @ [''UNIQUE''] else parts);
          parts = (if \<not> Optional field \<and> \<not> Primary field then parts @ [''NOT NULL'']
                   else parts);
          parts =
            (case Default field of
               VNil \<Rightarrow> parts
             | VStr v \<Rightarrow>
                 (if v = ''CURRENT_TIMESTAMP'' then parts @ [''DEFAULT CURRENT_TIMESTAMP'']
                  else parts @ [''DEFAULT '' @ [CHR 0x27] @ v @ [CHR 0x27]])
             | VBool v \<Rightarrow> (if v then parts @ [''DEFAULT 1''] else parts @ [''DEFAULT 0''])
             | v \<Rightarrow> parts @ [''DEFAULT '' @ fmt_v v])
      in strings_Join parts '' '')"

text \<open>The column loop of \<open>CreateTable\<close>, instantiated with each driver's column builder.\<close>

fun columnLoop :: "(FieldSchema \<Rightarrow> string) \<Rightarrow> FieldSchema list \<Rightarrow> string list \<Rightarrow> string list" where
  "columnLoop build [] columns = columns"
| "columnLoop build (field # fs) columns = columnLoop build fs (columns @ [build field])"

definition PostgresDriver_CreateTable :: "ModelSchema \<Rightarrow> string" where
  "PostgresDriver_CreateTable model =
     (let columns = columnLoop PostgresDriver_buildColumnDefinition (Fields_m model) []
      in ''CREATE TABLE IF NOT EXISTS '' @ TableName model @ '' ('' @ [CHR 0x0A] @ ''  '' @
         strings_Join columns ('','' @ [CHR 0x0A] @ ''  '') @ [CHR 0x0A] @ '')'')"

definition SQLiteDriver_CreateTable :: "ModelSchema \<Rightarrow> string" where
  "SQLiteDriver_CreateTable model =
     (let columns = columnLoop SQLiteDriver_buildColumnDefinition (Fields_m model) []
      in ''CREATE TABLE IF NOT EXISTS '' @ TableName model @ '' ('' @ [CHR 0x0A] @ ''  '' @
         strings_Join columns ('','' @ [CHR 0x0A] @ ''  '') @ [CHR 0x0A] @ '')'')"

definition MySQLDriver_CreateTable :: "ModelSchema \<Rightarrow> string" where
  "MySQLDriver_CreateTable model =
     (let columns = columnLoop MySQLDriver_buildColumnDefinition (Fields_m model) []
      in ''CREATE TABLE IF NOT EXISTS '' @ TableName model @ '' ('' @ [CHR 0x0A] @ ''  '' @
         strings_Join columns ('','' @ [CHR 0x0A] @ ''  '') @ [CHR 0x0A] @
         '') ENGINE=InnoDB DEFAULT CHARSET=utf8mb4'')"

section \<open>Query execution facade (QueryExecutor)\<close>

text \<open>
  The builder mutates the query it owns and returns itself; the model passes the
  builder through each call. The row scanner is not part of the model: only the
  terminal operations that decode rows use it.
\<close>

record QueryExecutor =
  query :: Query
  modelType :: string

definition NewQueryExecutor :: "string \<Rightarrow> string \<Rightarrow> QueryExecutor" where
  "NewQueryExecutor table mt =
     \<lparr>query = \<lparr>Table = table, Fields = [''*''], Wheres = [], Orders = [],
                LimitVal = None, OffsetVal = None, Includes = []\<rparr>,
      modelType = mt\<rparr>"

definition Where :: "QueryExecutor \<Rightarrow> string \<Rightarrow> string \<Rightarrow> val \<Rightarrow> QueryExecutor" where
  "Where qe field operator v =
     qe\<lparr>query := (query qe)\<lparr>Wheres := Wheres (query qe) @
        [\<lparr>Field_w = field, Operator_w = operator, Value_w = v, Not_w = False\<rparr>]\<rparr>\<rparr>"

text \<open>
  The fill loop of \<open>WhereIn\<close>, \<open>for i := range placeholders\<close>: every index of the
  slice, in order, is set to \<open>?\<close>.
\<close>

definition fillLoop :: "string list \<Rightarrow> string list" where
  "fillLoop placeholders =
     fold (\<lambda>i ps. ps[i := ''?'']) [0..<length placeholders] placeholders"

definition WhereIn :: "QueryExecutor \<Rightarrow> string \<Rightarrow> val list \<Rightarrow> QueryExecutor" where
  "WhereIn qe field vals =
     (let placeholders = fillLoop (replicate (length vals) [])
      in qe\<lparr>query := (query qe)\<lparr>Wheres := Wheres (query qe) @
           [\<lparr>Field_w = field, Operator_w = ''IN'',
             Value_w = VStr (''('' @ strings_Join placeholders '','' @ '')''),
             Not_w = False\<rparr>]\<rparr>\<rparr>)"

definition WhereNot :: "QueryExecutor \<Rightarrow> string \<Rightarrow> string \<Rightarrow> val \<Rightarrow> QueryExecutor" where
  "WhereNot qe field operator v =
     qe\<lparr>query := (query qe)\<lparr>Wheres := Wheres (query qe) @
        [\<lparr>Field_w = field, Operator_w = operator, Value_w = v, Not_w = True\<rparr>]\<rparr>\<rparr>"

definition OrderBy :: "QueryExecutor \<Rightarrow> string \<Rightarrow> string \<Rightarrow> QueryExecutor" where
  "OrderBy qe field direction =
     qe\<lparr>query := (query qe)\<lparr>Orders := Orders (query qe) @
        [\<lparr>Field_o = field, Direction_o = strings_ToUpper direction\<rparr>]\<rparr>\<rparr>"

definition Limit :: "QueryExecutor \<Rightarrow> int \<Rightarrow> QueryExecutor" where
  "Limit qe limit = qe\<lparr>query := (query qe)\<lparr>LimitVal := Some limit\<rparr>\<rparr>"

definition Offset :: "QueryExecutor \<Rightarrow> int \<Rightarrow> QueryExecutor" where
  "Offset qe offset = qe\<lparr>query := (query qe)\<lparr>OffsetVal := Some offset\<rparr>\<rparr>"

definition Select :: "QueryExecutor \<Rightarrow> string list \<Rightarrow> QueryExecutor" where
  "Select qe fieldList = qe\<lparr>query := (query qe)\<lparr>Fields := fieldList\<rparr>\<rparr>"

definition Include :: "QueryExecutor \<Rightarrow> string list \<Rightarrow> QueryExecutor" where
  "Include qe relations =
     qe\<lparr>query := (query qe)\<lparr>Includes := Includes (query qe) @ relations\<rparr>\<rparr>"

definition buildSelectQueryFromQuery :: "Query \<Rightarrow> string \<times> val list" where
  "buildSelectQueryFromQuery q =
     (let fields = strings_Join (Fields q) '', '';
          parts = [''SELECT '' @ fields @ '' FROM '' @ Table q];
          (parts, args) =
            (if length (Wheres q) > 0
             then (let (whereParts, args) = whereLoop (Wheres q) ([], [])
                   in (parts @ [''WHERE '' @ strings_Join whereParts '' AND ''], args))
             else (parts, []));
          parts =
            (if length (Orders q) > 0
             then parts @ [''ORDER BY '' @ strings_Join (orderLoop (Orders q) []) '', '']
             else parts);
          parts =
            (case LimitVal q of None \<Rightarrow> parts
             | Some n \<Rightarrow> parts @ [''LIMIT '' @ Itoa n]);
          parts =
            (case OffsetVal q of None \<Rightarrow> parts
             | Some n \<Rightarrow> parts @ [''OFFSET '' @ Itoa n])
      in (strings_Join parts '' '', args))"

definition buildSelectQuery :: "QueryExecutor \<Rightarrow> string \<times> val list" where
  "buildSelectQuery qe = buildSelectQueryFromQuery (query qe)"

text \<open>
  The execution collaborator, as \<open>Count\<close> uses it: \<open>db.QueryRow(ctx, query,
  args...).Scan(&count)\<close> takes the compiled text and the arguments and leaves a 64-bit
  count and an error (\<open>None\<close> is Go's \<open>nil\<close> error). \<open>GetDB()\<close> reads the global
  handle; the model takes it as a parameter, \<open>None\<close> when it is \<open>nil\<close>.
\<close>

type_synonym DB = "string \<Rightarrow> val list \<Rightarrow> 64 word \<times> error option"

definition Count :: "QueryExecutor \<Rightarrow> DB option \<Rightarrow> 64 word \<times> error option" where
  "Count qe db =
     (case db of
        None \<Rightarrow> (0, Some (Err ''database not initialized''))
      | Some d \<Rightarrow>
          (let countQuery =
                 \<lparr>Table = Table (query qe), Fields = [''COUNT(*)''],
                  Wheres = Wheres (query qe), Orders = [], LimitVal = None,
                  OffsetVal = None, Includes = []\<rparr>;
               (q, args) = buildSelectQueryFromQuery countQuery
           in d q args))"

definition Exists :: "QueryExecutor \<Rightarrow> DB option \<Rightarrow> bool \<times> error option" where
  "Exists qe db = (let (count, err) = Count qe db in (0 <s count, err))"

section \<open>Schema parser (gen/parser.go)\<close>

text \<open>
  \<open>regexp.FindAllStringSubmatch\<close> for the attribute pattern
  \<open>@(\w+)(?:\(([^)]*)\))?\<close>: the successive non-overlapping matches, left to right,
  each as (group 1, group 2). A match starts at an \<open>@\<close> followed by at least one word
  character and takes all of them; the parenthesised group is taken when an opening
  parenthesis follows and a closing one exists, up to the first closing one; an
  unmatched group reads as the empty string.
\<close>

function findAllAttributes :: "string \<Rightarrow> (string \<times> string) list" where
  "findAllAttributes [] = []"
| "findAllAttributes (c # cs) =
     (if c = CHR ''@'' \<and> takeWhile isWord cs \<noteq> []
      then (let name = takeWhile isWord cs; rest = dropWhile isWord cs in
            case rest of
              [] \<Rightarrow> [(name, [])]
            | d # ds \<Rightarrow>
                (if d = CHR ''('' \<and> dropWhile (\<lambda>x. x \<noteq> CHR '')'') ds \<noteq> []
                 then (name, takeWhile (\<lambda>x. x \<noteq> CHR '')'') ds) #
                      findAllAttributes (tl (dropWhile (\<lambda>x. x \<noteq> CHR '')'') ds))
                 else (name, []) # findAllAttributes rest))
      else findAllAttributes cs)"
  by pat_completeness auto
termination
proof (relation "measure length", goal_cases)
  case 1
  show ?case by simp
next
  case (2 c cs name rest d ds)
  have "length (dropWhile (\<lambda>x. x \<noteq> CHR '')'') ds) \<le> length ds"
    by (rule length_dropWhile_le)
  moreover have "length (d # ds) \<le> length cs"
    using 2 length_dropWhile_le [of isWord cs] by simp
  ultimately show ?case by simp
next
  case (3 c cs name rest d ds)
  then show ?case
    using length_dropWhile_le [of isWord cs] by simp
next
  case (4 c cs)
  then show ?case by simp
qed

declare findAllAttributes.simps [simp del]

definition parseDefaultValue :: "string \<Rightarrow> val" where
  "parseDefaultValue v =
     (let value = strings_Trim v [CHR 0x22, CHR 0x27] in
      if value = ''now()'' then VStr ''CURRENT_TIMESTAMP''
      else if value = ''true'' then VBool True
      else if value = ''false'' then VBool False
      else if CHR ''.'' \<in> set value then VStr value
      else VStr value)"

text \<open>The body of the attribute loop: one match, applied to the field.\<close>

definition applyAttribute :: "FieldSchema \<Rightarrow> string \<times> string \<Rightarrow> FieldSchema" where
  "applyAttribute field match =
     (let attrName = fst match; attrValue = snd match in
      if attrName = ''id'' then field\<lparr>Primary := True\<rparr>
      else if attrName = ''auto'' then field\<lparr>AutoGen := True\<rparr>
      else if attrName = ''unique'' then field\<lparr>Unique := True\<rparr>
      else if attrName = ''default'' then field\<lparr>Default := parseDefaultValue attrValue\<rparr>
      else if attrName = ''updatedAt''
      then field\<lparr>Type_f := ''DateTime'', Default := VStr ''now()''\<rparr>
      else field)"

definition parseAttributes :: "string \<Rightarrow> FieldSchema \<Rightarrow> error + FieldSchema" where
  "parseAttributes attributeStr field =
     (let matches = findAllAttributes attributeStr
      in Inr (fold (\<lambda>match f. applyAttribute f match) matches field))"

text \<open>
  \<open>regexp.FindStringSubmatch\<close> for the relation pattern
  \<open>@relation\("([^"]*)"(?:,\s*fields:\s*\[([^\]]*)\])?(?:,\s*references:\s*\[([^\]]*)\])?\)\<close>.
  \<open>matchListGroup kw s\<close> reads one optional group \<open>,\s*kw\s*\[([^\]]*)\]\<close> at the
  start of \<open>s\<close> and gives the captured text and the rest; \<open>matchRelationAt\<close> is the
  pattern anchored at the start of the text; \<open>findRelation\<close> is the leftmost match,
  as (group 1, group 2, group 3).
\<close>

definition matchListGroup :: "string \<Rightarrow> string \<Rightarrow> (string \<times> string) option" where
  "matchListGroup kw s =
     (case s of
        [] \<Rightarrow> None
      | c # s1 \<Rightarrow>
          (if c \<noteq> CHR '','' then None
           else (let s2 = dropWhile isReSpace s1 in
                 if \<not> strings_HasPrefix s2 kw then None
                 else (case dropWhile isReSpace (drop (length kw) s2) of
                         [] \<Rightarrow> None
                       | b # s3 \<Rightarrow>
                           (if b \<noteq> CHR ''['' then None
                            else (case dropWhile (\<lambda>x. x \<noteq> CHR '']'') s3 of
                                    [] \<Rightarrow> None
                                  | e # s4 \<Rightarrow>
                                      Some (takeWhile (\<lambda>x. x \<noteq> CHR '']'') s3, s4)))))))"

definition matchRelationAt :: "string \<Rightarrow> (string \<times> string \<times> string) option" where
  "matchRelationAt s =
     (if \<not> strings_HasPrefix s (''@relation('' @ [CHR 0x22]) then None
      else (let s1 = drop 11 s in
            case dropWhile (\<lambda>x. x \<noteq> CHR 0x22) s1 of
              [] \<Rightarrow> None
            | q # s2 \<Rightarrow>
                (let g1 = takeWhile (\<lambda>x. x \<noteq> CHR 0x22) s1;
                     (g2, s3) = (case matchListGroup ''fields:'' s2 of
                                   None \<Rightarrow> ([], s2) | Some r \<Rightarrow> r);
                     (g3, s4) = (case matchListGroup ''references:'' s3 of
                                   None \<Rightarrow> ([], s3) | Some r \<Rightarrow> r)
                 in (case s4 of
                       [] \<Rightarrow> None
                     | p # s5 \<Rightarrow> (if p = CHR '')'' then Some (g1, g2, g3) else None)))))"

fun findRelation :: "string \<Rightarrow> (string \<times> string \<times> string) option" where
  "findRelation [] = None"
| "findRelation (c # cs) =
     (case matchRelationAt (c # cs) of
        Some m \<Rightarrow> Some m
      | None \<Rightarrow> findRelation cs)"

definition parseRelationAttributes :: "string \<Rightarrow> Relation \<Rightarrow> error + Relation" where
  "parseRelationAttributes attributeStr relation =
     (let relation =
            (case findRelation attributeStr of
               None \<Rightarrow> relation
             | Some (g1, g2, g3) \<Rightarrow>
                 (let relation = relation\<lparr>Name_r := g1\<rparr>;
                      relation =
                        (if g2 \<noteq> []
                         then relation\<lparr>Fields_r :=
                                strings_Split (filter (\<lambda>x. x \<noteq> CHR '' '') g2) CHR '',''\<rparr>
                         else relation);
                      relation =
                        (if g3 \<noteq> []
                         then relation\<lparr>References_r :=
                                strings_Split (filter (\<lambda>x. x \<noteq> CHR '' '') g3) CHR '',''\<rparr>
                         else relation)
                  in relation))
      in if length (Fields_r relation) > 0 \<and> length (References_r relation) > 0
         then Inr (relation\<lparr>Type_r := ''belongsTo''\<rparr>)
         else Inr relation)"

definition parseRelation :: "string \<Rightarrow> ModelSchema \<Rightarrow> error + ModelSchema" where
  "parseRelation line model =
     (let parts = strings_Fields line in
      if length parts < 2 then Inl (Err ''invalid relation definition'')
      else (let fieldName = parts ! 0;
                fieldType = strings_TrimSuffix (parts ! 1) ''[]'';
                relation = \<lparr>Name_r = fieldName, Type_r = ''hasMany'', Model_r = fieldType,
                            Fields_r = [], References_r = []\<rparr>;
                attributeStr = strings_Join (drop 2 parts) '' ''
            in case parseRelationAttributes attributeStr relation of
                 Inl err \<Rightarrow> Inl err
               | Inr relation \<Rightarrow> Inr (model\<lparr>Relations := Relations model @ [relation]\<rparr>)))"

definition parseField :: "string \<Rightarrow> ModelSchema \<Rightarrow> error + ModelSchema" where
  "parseField line model =
     (let parts = strings_Fields line in
      if length parts < 2 then Inl (Err ''invalid field definition'')
      else (let fieldName = parts ! 0;
                fieldType = parts ! 1;
                field = \<lparr>Name_f = fieldName, Type_f = strings_TrimSuffix fieldType ''?'',
                         Optional = strings_HasSuffix fieldType ''?'', Unique = False,
                         Primary = False, AutoGen = False, Default = VNil,
                         DatabaseType = []\<rparr>
            in if strings_HasSuffix fieldType ''[]'' then parseRelation line model
               else (let attributeStr = strings_Join (drop 2 parts) '' ''
                     in case parseAttributes attributeStr field of
                          Inl err \<Rightarrow> Inl err
                        | Inr field \<Rightarrow> Inr (model\<lparr>Fields_m := Fields_m model @ [field]\<rparr>))))"

text \<open>
  The scan loop of \<open>ParseFile\<close> over the lines \<open>bufio.Scanner\<close> yields. The loop
  state is \<open>(p.schema.Models, currentModel, inModel)\<close>; \<open>Inl\<close> is the early
  \<open>return nil, err\<close>.
\<close>

fun parseLines ::
  "string list \<Rightarrow> ModelSchema list \<times> ModelSchema option \<times> bool \<Rightarrow>
   error + ModelSchema list \<times> ModelSchema option \<times> bool" where
  "parseLines [] st = Inr st"
| "parseLines (text # rest) (models, currentModel, inModel) =
     (let line = strings_TrimSpace text in
      if line = [] \<or> strings_HasPrefix line ''//''
      then parseLines rest (models, currentModel, inModel)
      else if strings_HasPrefix line ''model ''
      then (let models = (case currentModel of None \<Rightarrow> models | Some m \<Rightarrow> models @ [m]);
                modelName =
                  strings_TrimSpace
                    (strings_TrimSuffix (strings_TrimPrefix line ''model '') ''{'')
            in parseLines rest
                 (models,
                  Some \<lparr>Name_m = modelName, TableName = GetTableName modelName,
                        Fields_m = [], Relations = []\<rparr>,
                  True))
      else if line = ''}'' \<and> inModel
      then (case currentModel of
              None \<Rightarrow> parseLines rest (models, None, False)
            | Some m \<Rightarrow> parseLines rest (models @ [m], None, False))
      else (case currentModel of
              None \<Rightarrow> parseLines rest (models, currentModel, inModel)
            | Some m \<Rightarrow>
                (if inModel
                 then (case parseField line m of
                         Inl (Err e) \<Rightarrow>
                           Inl (Err (''error parsing field '' @ [CHR 0x27] @ line @
                                     [CHR 0x27] @ '': '' @ e))
                       | Inr m' \<Rightarrow> parseLines rest (models, Some m', inModel))
                 else parseLines rest (models, currentModel, inModel))))"

text \<open>
  \<open>ParseFile\<close> on the lines of an opened file; \<open>p\<close> is the parser's schema before
  the call (\<open>NewParser\<close> starts it empty). Failures of \<open>os.Open\<close> and of the line
  scanner itself are input/output conditions outside the model. On a parse error the
  returned schema pointer is \<open>nil\<close>: \<open>Inl\<close> carries the error alone.
\<close>

definition NewParser :: Schema where
  "NewParser = \<lparr>Models = []\<rparr>"

definition ParseFile :: "Schema \<Rightarrow> string list \<Rightarrow> error + Schema" where
  "ParseFile p lines =
     (case parseLines lines (Models p, None, False) of
        Inl err \<Rightarrow> Inl err
      | Inr (models, currentModel, inModel) \<Rightarrow>
          Inr (p\<lparr>Models := (case currentModel of None \<Rightarrow> models
                              | Some m \<Rightarrow> models @ [m])\<rparr>))"

section \<open>Notions used to state the properties\<close>

text \<open>
  The type-mapping table as the code realises it: each row lists the abstract type
  names it covers and the column types for postgres, mysql and sqlite, in this order.
  A name in no row maps to \<open>TEXT\<close> in every dialect.
\<close>

definition typeTable :: "(string list \<times> string \<times> string \<times> string) list" where
  "typeTable =
     [([''int'', ''Int''], ''INTEGER'', ''INT'', ''INTEGER''),
      ([''int64''], ''BIGINT'', ''BIGINT'', ''INTEGER''),
      ([''string'', ''String''], ''VARCHAR(255)'', ''VARCHAR(255)'', ''TEXT''),
      ([''bool'', ''Boolean''], ''BOOLEAN'', ''BOOLEAN'', ''INTEGER''),
      ([''float64'', ''Float''], ''DOUBLE PRECISION'', ''DOUBLE'', ''REAL''),
      ([''time.Time'', ''DateTime''], ''TIMESTAMP'', ''TIMESTAMP'', ''DATETIME'')]"

fun tableLookup ::
  "(string list \<times> string \<times> string \<times> string) list \<Rightarrow> string \<Rightarrow> string \<times> string \<times> string" where
  "tableLookup [] t = (''TEXT'', ''TEXT'', ''TEXT'')"
| "tableLookup ((names, row) # rest) t = (if t \<in> set names then row else tableLookup rest t)"

text \<open>
  The text of one where-clause, given the placeholder text \<open>ph\<close> of its dialect:
  \<open><field> [NOT] <operator> <placeholder>\<close>, and for the operator \<open>IN\<close> the
  clause's value in place of the placeholder. A clause is \<open>bound\<close> when it
  contributes an argument, that is, when its operator is not \<open>IN\<close>.
\<close>

definition clauseText :: "string \<Rightarrow> WhereClause \<Rightarrow> string" where
  "clauseText ph w =
     Field_w w @ '' '' @ (if Not_w w then ''NOT '' else []) @ Operator_w w @ '' '' @
     (if Operator_w w = ''IN'' then fmt_v (Value_w w) else ph)"

definition bound :: "WhereClause \<Rightarrow> bool" where
  "bound w = (Operator_w w \<noteq> ''IN'')"

text \<open>The clause texts of the postgres compiler, the next placeholder number being \<open>k\<close>.\<close>

fun pgParts :: "int \<Rightarrow> WhereClause list \<Rightarrow> string list" where
  "pgParts k [] = []"
| "pgParts k (w # ws) =
     clauseText (''$'' @ Itoa k) w # pgParts (if bound w then k + 1 else k) ws"

text \<open>The optional parts of a compiled text, each with the space that joins it.\<close>

definition wherePart :: "string list \<Rightarrow> string" where
  "wherePart whereParts =
     (if whereParts = [] then [] else '' WHERE '' @ strings_Join whereParts '' AND '')"

definition orderPart :: "OrderClause list \<Rightarrow> string" where
  "orderPart os =
     (if os = [] then []
      else '' ORDER BY '' @
           strings_Join (map (\<lambda>oc. Field_o oc @ '' '' @ Direction_o oc) os) '', '')"

definition limitPart :: "string \<Rightarrow> int option \<Rightarrow> string" where
  "limitPart kw l = (case l of None \<Rightarrow> [] | Some n \<Rightarrow> '' '' @ kw @ '' '' @ Itoa n)"

text \<open>
  The text \<open>(?,...,?)\<close> with \<open>n\<close> question marks, and the number of question marks
  that the values of the \<open>IN\<close> clauses of a where-list carry.
\<close>

definition placeholderGroup :: "nat \<Rightarrow> string" where
  "placeholderGroup n = ''('' @ strings_Join (replicate n ''?'') '','' @ '')''"

definition inMarks :: "WhereClause list \<Rightarrow> nat" where
  "inMarks ws =
     sum_list (map (\<lambda>w. count_list (fmt_v (Value_w w)) CHR ''?'') (filter (\<lambda>w. \<not> bound w) ws))"

text \<open>
  A query has no \<open>IN\<close> clause; a character is mentioned by a query when it occurs in
  one of the texts the compilers copy into the SQL: the table name, a projected field,
  the field or operator of a where-clause, the field or direction of an order-clause.
\<close>

definition noIN :: "Query \<Rightarrow> bool" where
  "noIN q = (\<forall>w \<in> set (Wheres q). Operator_w w \<noteq> ''IN'')"

definition mentions :: "char \<Rightarrow> Query \<Rightarrow> bool" where
  "mentions c q =
     (c \<in> set (Table q) \<or> (\<exists>f \<in> set (Fields q). c \<in> set f) \<or>
      (\<exists>w \<in> set (Wheres q). c \<in> set (Field_w w) \<or> c \<in> set (Operator_w w)) \<or>
      (\<exists>oc \<in> set (Orders q). c \<in> set (Field_o oc) \<or> c \<in> set (Direction_o oc)))"

text \<open>The text of a where-clause up to its placeholder: \<open><field> [NOT] <operator> \<close>.\<close>

definition clausePrefix :: "WhereClause \<Rightarrow> string" where
  "clausePrefix w =
     Field_w w @ '' '' @ (if Not_w w then ''NOT '' else []) @ Operator_w w @ '' ''"

text \<open>
  The placeholders of a compiled text in the style of mysql and sqlite, read left to
  right: one entry for each \<open>?\<close>, holding the text that precedes it since the
  previous placeholder. \<open>cur\<close> is the text read since the previous placeholder.
\<close>

fun qmarkScan :: "string \<Rightarrow> string \<Rightarrow> string list" where
  "qmarkScan cur [] = []"
| "qmarkScan cur (c # cs) =
     (if c = CHR ''?'' then cur # qmarkScan [] cs else qmarkScan (cur @ [c]) cs)"

text \<open>
  The placeholders of a compiled text in the style of postgres, read left to right:
  one entry for each \<open>$\<close> followed by decimal digits, holding the text that precedes
  it since the previous placeholder and the number the digits denote. The second
  argument is the number being read, if any.
\<close>

definition digitVal :: "char \<Rightarrow> nat" where
  "digitVal c = (of_char c :: nat) - 48"

definition startsWithDigit :: "string \<Rightarrow> bool" where
  "startsWithDigit s = (case s of [] \<Rightarrow> False | d # ds \<Rightarrow> isDigit d)"

fun dollarScan :: "string \<Rightarrow> nat option \<Rightarrow> string \<Rightarrow> (string \<times> nat) list" where
  "dollarScan cur None [] = []"
| "dollarScan cur (Some n) [] = [(cur, n)]"
| "dollarScan cur None (c # cs) =
     (if c = CHR ''$'' \<and> startsWithDigit cs then dollarScan cur (Some 0) cs
      else dollarScan (cur @ [c]) None cs)"
| "dollarScan cur (Some n) (c # cs) =
     (if isDigit c then dollarScan cur (Some (10 * n + digitVal c)) cs
      else if c = CHR ''$'' \<and> startsWithDigit cs then (cur, n) # dollarScan [] (Some 0) cs
      else (cur, n) # dollarScan [c] None cs)"

text \<open>
  What the scans find in a where part whose clauses are all bound: the \<open>i\<close>-th
  placeholder is preceded by the prefix of the \<open>i\<close>-th clause (after \<open>cur\<close> for the
  first clause and after the separator for the others), and is numbered \<open>k + i\<close> in
  the postgres style.
\<close>

fun qmarkExpected :: "string \<Rightarrow> WhereClause list \<Rightarrow> string list" where
  "qmarkExpected cur [] = []"
| "qmarkExpected cur (w # ws) = (cur @ clausePrefix w) # qmarkExpected '' AND '' ws"

fun dollarExpected :: "string \<Rightarrow> nat \<Rightarrow> WhereClause list \<Rightarrow> (string \<times> nat) list" where
  "dollarExpected cur k [] = []"
| "dollarExpected cur k (w # ws) = (cur @ clausePrefix w, k) # dollarExpected '' AND '' (Suc k) ws"

text \<open>The number denoted by a digit string read after the number \<open>n\<close>.\<close>

definition digitsVal :: "nat \<Rightarrow> string \<Rightarrow> nat" where
  "digitsVal n ds = foldl (\<lambda>a d. 10 * a + digitVal d) n ds"

text \<open>The parts of a compiled text after the where part.\<close>

definition tailPart :: "Query \<Rightarrow> string" where
  "tailPart q =
     orderPart (Orders q) @ limitPart ''LIMIT'' (LimitVal q) @ limitPart ''OFFSET'' (OffsetVal q)"

text \<open>A query with two bound clauses, an ordering and a limit, as a worked example.\<close>

definition exampleQuery :: Query where
  "exampleQuery =
     \<lparr>Table = ''users'', Fields = [''*''],
      Wheres = [\<lparr>Field_w = ''age'', Operator_w = ''>'', Value_w = VInt 18, Not_w = False\<rparr>,
                \<lparr>Field_w = ''status'', Operator_w = ''='', Value_w = VStr ''archived'',
                 Not_w = True\<rparr>],
      Orders = [\<lparr>Field_o = ''name'', Direction_o = ''DESC''\<rparr>],
      LimitVal = Some 10, OffsetVal = None, Includes = []\<rparr>"






section \<open>Properties\<close>

subsection \<open>Formatting facts\<close>

lemma Itoa_1: "Itoa 1 = ''1''"
  by (simp add: Itoa_def string_of_nat.simps)

subsection \<open>The loops in closed form\<close>

lemma Join_snoc: "xs \<noteq> [] \<Longrightarrow> strings_Join (xs @ [x]) sep = strings_Join xs sep @ sep @ x"
  by (induction xs sep rule: strings_Join.induct) auto

lemma Join_Cons: "xs \<noteq> [] \<Longrightarrow> strings_Join (x # xs) sep = x @ sep @ strings_Join xs sep"
  by (cases xs) auto

lemma whereLoop_eq:
  "whereLoop ws (ps, as) = (ps @ map (clauseText ''?'') ws, as @ map Value_w (filter bound ws))"
  by (induction ws arbitrary: ps as) (auto simp: clauseText_def bound_def)

lemma pgWhereLoop_eq:
  "pgWhereLoop ws (ps, as, k) =
     (ps @ pgParts k ws, as @ map Value_w (filter bound ws), k + int (length (filter bound ws)))"
  by (induction ws arbitrary: ps as k) (auto simp: clauseText_def bound_def)

lemma orderLoop_eq:
  "orderLoop os ps = ps @ map (\<lambda>oc. Field_o oc @ '' '' @ Direction_o oc) os"
  by (induction os arbitrary: ps) auto

lemma columnLoop_eq: "columnLoop build fs cols = cols @ map build fs"
  by (induction fs arbitrary: cols) auto

lemma pgParts_Nil [simp]: "pgParts k ws = [] \<longleftrightarrow> ws = []"
  by (cases ws) auto

lemma length_pgParts [simp]: "length (pgParts k ws) = length ws"
  by (induction ws arbitrary: k) auto

subsection \<open>The compiled text, part by part\<close>

lemma sqlite_text:
  "SQLiteDriver_BuildQuery q =
     (''SELECT '' @ strings_Join (Fields q) '', '' @ '' FROM '' @ Table q @
      wherePart (map (clauseText ''?'') (Wheres q)) @ orderPart (Orders q) @
      limitPart ''LIMIT'' (LimitVal q) @ limitPart ''OFFSET'' (OffsetVal q),
      map Value_w (filter bound (Wheres q)))"
  by (simp add: SQLiteDriver_BuildQuery_def whereLoop_eq orderLoop_eq wherePart_def
      orderPart_def limitPart_def Join_snoc Let_def split: option.splits)

lemma mysql_eq_sqlite: "MySQLDriver_BuildQuery = SQLiteDriver_BuildQuery"
  by (rule ext) (simp only: MySQLDriver_BuildQuery_def SQLiteDriver_BuildQuery_def)

lemma facade_eq_sqlite: "buildSelectQueryFromQuery = SQLiteDriver_BuildQuery"
  by (rule ext) (simp only: buildSelectQueryFromQuery_def SQLiteDriver_BuildQuery_def)

lemma postgres_text:
  "PostgresDriver_BuildQuery q =
     (''SELECT '' @ strings_Join (Fields q) '', '' @ '' FROM '' @ Table q @
      wherePart (pgParts 1 (Wheres q)) @ orderPart (Orders q) @
      limitPart ''LIMIT'' (LimitVal q) @ limitPart ''OFFSET'' (OffsetVal q),
      map Value_w (filter bound (Wheres q)))"
  by (simp add: PostgresDriver_BuildQuery_def pgWhereLoop_eq orderLoop_eq wherePart_def
      orderPart_def limitPart_def Join_snoc Let_def split: option.splits)

lemma pgParts_nth:
  "i < length ws \<Longrightarrow>
   pgParts k ws ! i =
     clauseText (''$'' @ Itoa (k + int (length (filter bound (take i ws))))) (ws ! i)"
proof (induction ws arbitrary: k i)
  case Nil
  then show ?case by simp
next
  case (Cons w ws)
  show ?case
  proof (cases i)
    case 0
    then show ?thesis by simp
  next
    case (Suc j)
    with Cons.prems have "j < length ws" by simp
    from Cons.IH [OF this] Suc show ?thesis by (simp add: add.assoc)
  qed
qed

lemma clauseText_negated:
  "Not_w w \<Longrightarrow> Operator_w w \<noteq> ''IN'' \<Longrightarrow>
   clauseText ph w = Field_w w @ '' NOT '' @ Operator_w w @ '' '' @ ph"
  by (simp add: clauseText_def)

lemma Count_Some:
  "Count qe (Some d) =
     d (''SELECT COUNT(*) FROM '' @ Table (query qe) @
        wherePart (map (clauseText ''?'') (Wheres (query qe))))
       (map Value_w (filter bound (Wheres (query qe))))"
  by (simp add: Count_def facade_eq_sqlite sqlite_text orderPart_def limitPart_def)

lemma Count_ignores:
  "Wheres (query qe') = Wheres (query qe) \<Longrightarrow> Table (query qe') = Table (query qe) \<Longrightarrow>
   Count qe' db = Count qe db"
  by (cases db) (simp_all add: Count_def)

subsection \<open>Naming helpers\<close>





subsection \<open>Column definitions with a boolean default\<close>

lemma pg_col_bool:
  "PostgresDriver_buildColumnDefinition (f\<lparr>Default := VBool b\<rparr>) =
     strings_Join
       ([Name_f f, if Primary f \<and> AutoGen f then ''SERIAL'' else GetSQLType (Type_f f) ''postgres''] @
        (if Primary f then [''PRIMARY KEY''] else []) @
        (if Unique f \<and> \<not> Primary f then [''UNIQUE''] else []) @
        (if \<not> Optional f \<and> \<not> Primary f then [''NOT NULL''] else [])) '' '' @
     '' DEFAULT '' @ fmt_t b"
  by (simp add: PostgresDriver_buildColumnDefinition_def Let_def Join_snoc)

lemma mysql_col_bool:
  "MySQLDriver_buildColumnDefinition (f\<lparr>Default := VBool b\<rparr>) =
     strings_Join
       ([Name_f f, if Primary f \<and> AutoGen f then ''INT AUTO_INCREMENT''
                   else GetSQLType (Type_f f) ''mysql''] @
        (if Primary f then [''PRIMARY KEY''] else []) @
        (if Unique f \<and> \<not> Primary f then [''UNIQUE''] else []) @
        (if \<not> Optional f \<and> \<not> Primary f then [''NOT NULL''] else [])) '' '' @
     '' DEFAULT '' @ fmt_t b"
  by (simp add: MySQLDriver_buildColumnDefinition_def Let_def Join_snoc)

lemma sqlite_col_bool:
  "SQLiteDriver_buildColumnDefinition (f\<lparr>Default := VBool b\<rparr>) =
     strings_Join
       ([Name_f f, if Primary f \<and> AutoGen f then ''INTEGER'' else GetSQLType (Type_f f) ''sqlite''] @
        (if Primary f then [''PRIMARY KEY''] @ (if AutoGen f then [''AUTOINCREMENT''] else [])
         else []) @
        (if Unique f \<and> \<not> Primary f then [''UNIQUE''] else []) @
        (if \<not> Optional f \<and> \<not> Primary f then [''NOT NULL''] else [])) '' '' @
     '' DEFAULT '' @ (if b then ''1'' else ''0'')"
  by (simp add: SQLiteDriver_buildColumnDefinition_def Let_def Join_snoc)

subsection \<open>Counting placeholder characters\<close>

lemma fold_update_prefix:
  "k \<le> length ps \<Longrightarrow> fold (\<lambda>i qs. qs[i := x]) [0..<k] ps = replicate k x @ drop k ps"
proof (induction k)
  case 0
  then show ?case by simp
next
  case (Suc k)
  then have "k < length ps" by simp
  then have "(replicate k x @ drop k ps)[k := x] = replicate k x @ (drop k ps)[0 := x]"
    by (simp add: list_update_append)
  also have "(drop k ps)[0 := x] = x # drop (Suc k) ps"
    using \<open>k < length ps\<close> by (simp add: Cons_nth_drop_Suc [symmetric])
  finally show ?case using Suc by (simp add: replicate_append_same)
qed

lemma fillLoop_replicate: "fillLoop (replicate n s) = replicate n ''?''"
  using fold_update_prefix [of n "replicate n s" "''?''"] by (simp add: fillLoop_def)

lemma count_Join:
  "count_list (strings_Join xs sep) c =
     sum_list (map (\<lambda>x. count_list x c) xs) + (length xs - 1) * count_list sep c"
  by (induction xs sep rule: strings_Join.induct) simp_all

lemma count_placeholderGroup: "count_list (placeholderGroup n) CHR ''?'' = n"
  by (simp add: placeholderGroup_def count_Join sum_list_replicate)

lemma WhereIn_Wheres:
  "Wheres (query (WhereIn qe f vs)) =
     Wheres (query qe) @
     [\<lparr>Field_w = f, Operator_w = ''IN'', Value_w = VStr (placeholderGroup (length vs)),
       Not_w = False\<rparr>]"
  by (simp add: WhereIn_def fillLoop_replicate placeholderGroup_def)

lemma count_clauseText_qmark:
  "(if bound w then 1 else count_list (fmt_v (Value_w w)) CHR ''?'')
     \<le> count_list (clauseText ''?'' w) CHR ''?''"
  by (simp add: clauseText_def bound_def)

lemma count_wherePart_ge:
  "sum_list (map (\<lambda>x. count_list x c) ps) \<le> count_list (wherePart ps) c"
  by (simp add: wherePart_def count_Join)

lemma sum_clauseText_qmark:
  "length (filter bound ws) + inMarks ws
     \<le> sum_list (map (\<lambda>x. count_list x CHR ''?'') (map (clauseText ''?'') ws))"
proof (induction ws)
  case Nil
  then show ?case by (simp add: inMarks_def)
next
  case (Cons w ws)
  from count_clauseText_qmark [of w] Cons show ?case
    by (auto simp: inMarks_def)
qed

lemma sqlite_marks_ge:
  "length (snd (SQLiteDriver_BuildQuery q)) + inMarks (Wheres q)
     \<le> count_list (fst (SQLiteDriver_BuildQuery q)) CHR ''?''"
proof -
  have "length (filter bound (Wheres q)) + inMarks (Wheres q)
      \<le> count_list (wherePart (map (clauseText ''?'') (Wheres q))) CHR ''?''"
    using sum_clauseText_qmark count_wherePart_ge le_trans by blast
  then show ?thesis by (simp add: sqlite_text)
qed

lemma count_clauseText_dollar:
  "(if bound w then 1 else 0) \<le> count_list (clauseText (''$'' @ s) w) CHR ''$''"
  by (simp add: clauseText_def bound_def)

lemma count_clauseText_pg_qmark:
  "(if bound w then 0 else count_list (fmt_v (Value_w w)) CHR ''?'')
     \<le> count_list (clauseText ph w) CHR ''?''"
  by (simp add: clauseText_def bound_def)

lemma sum_pgParts_dollar:
  "length (filter bound ws) \<le> sum_list (map (\<lambda>x. count_list x CHR ''$'') (pgParts k ws))"
proof (induction ws arbitrary: k)
  case Nil
  then show ?case by simp
next
  case (Cons w ws)
  from count_clauseText_dollar [of w "Itoa k"] Cons [of "if bound w then k + 1 else k"]
  show ?case by (cases "bound w") simp_all
qed

lemma sum_pgParts_qmark:
  "inMarks ws \<le> sum_list (map (\<lambda>x. count_list x CHR ''?'') (pgParts k ws))"
proof (induction ws arbitrary: k)
  case Nil
  then show ?case by (simp add: inMarks_def)
next
  case (Cons w ws)
  from count_clauseText_pg_qmark [of w "''$'' @ Itoa k"] Cons [of "if bound w then k + 1 else k"]
  show ?case by (cases "bound w") (simp_all add: inMarks_def)
qed

lemma postgres_marks_ge:
  "length (snd (PostgresDriver_BuildQuery q)) \<le> count_list (fst (PostgresDriver_BuildQuery q)) CHR ''$''"
  "inMarks (Wheres q) \<le> count_list (fst (PostgresDriver_BuildQuery q)) CHR ''?''"
proof -
  have "length (filter bound (Wheres q)) \<le> count_list (wherePart (pgParts 1 (Wheres q))) CHR ''$''"
    using sum_pgParts_dollar count_wherePart_ge le_trans by blast
  then show "length (snd (PostgresDriver_BuildQuery q)) \<le> count_list (fst (PostgresDriver_BuildQuery q)) CHR ''$''"
    by (simp add: postgres_text)
  have "inMarks (Wheres q) \<le> count_list (wherePart (pgParts 1 (Wheres q))) CHR ''?''"
    using sum_pgParts_qmark count_wherePart_ge le_trans by blast
  then show "inMarks (Wheres q) \<le> count_list (fst (PostgresDriver_BuildQuery q)) CHR ''?''"
    by (simp add: postgres_text)
qed

lemma inMarks_WhereIn:
  "inMarks (Wheres (query (WhereIn qe f vs))) = inMarks (Wheres (query qe)) + length vs"
  by (simp add: WhereIn_Wheres inMarks_def bound_def count_placeholderGroup)

lemma filter_bound_WhereIn:
  "filter bound (Wheres (query (WhereIn qe f vs))) = filter bound (Wheres (query qe))"
  by (simp add: WhereIn_Wheres bound_def)

lemma pgParts_append:
  "pgParts k (ws @ vs) = pgParts k ws @ pgParts (k + int (length (filter bound ws))) vs"
  by (induction ws arbitrary: k) (auto simp: add.assoc)

lemma clauseText_IN:
  "clauseText ph \<lparr>Field_w = f, Operator_w = ''IN'', Value_w = VStr g, Not_w = False\<rparr> =
     f @ '' IN '' @ g"
  by (simp add: clauseText_def)

subsection \<open>Decimal digits\<close>

lemma digit_char:
  "d < 10 \<Longrightarrow> isDigit (''0123456789'' ! d) \<and> digitVal (''0123456789'' ! d) = d"
proof -
  assume "d < 10"
  then have "d \<in> {0, 1, 2, 3, 4, 5, 6, 7, 8, 9}" by auto
  then show ?thesis
    by (elim insertE emptyE) (simp_all add: isDigit_def digitVal_def)
qed

lemma string_of_nat_digits: "\<forall>c \<in> set (string_of_nat n). isDigit c"
proof (induction n rule: string_of_nat.induct)
  case (1 n)
  show ?case
  proof (cases "n < 10")
    case True
    then show ?thesis
      using digit_char [of n] by (subst string_of_nat.simps) simp
  next
    case False
    with 1 have "\<forall>c \<in> set (string_of_nat (n div 10)). isDigit c" by simp
    moreover have "isDigit (''0123456789'' ! (n mod 10))"
      using digit_char [of "n mod 10"] by simp
    ultimately show ?thesis
      using False by (subst string_of_nat.simps) simp
  qed
qed

lemma string_of_nat_nonempty: "string_of_nat n \<noteq> []"
  by (subst string_of_nat.simps) simp

lemma digitsVal_string_of_nat: "digitsVal 0 (string_of_nat n) = n"
proof (induction n rule: string_of_nat.induct)
  case (1 n)
  show ?case
  proof (cases "n < 10")
    case True
    then show ?thesis
      using digit_char [of n] by (subst string_of_nat.simps) (simp add: digitsVal_def)
  next
    case False
    with 1 have "digitsVal 0 (string_of_nat (n div 10)) = n div 10" by simp
    moreover have "digitVal (''0123456789'' ! (n mod 10)) = n mod 10"
      using digit_char [of "n mod 10"] by simp
    ultimately show ?thesis
      using False by (subst string_of_nat.simps) (simp add: digitsVal_def)
  qed
qed

lemma isDigit_not_marker: "isDigit c \<Longrightarrow> c \<noteq> CHR ''?'' \<and> c \<noteq> CHR ''$''"
  by (auto simp: isDigit_def)

lemma Itoa_free: "c = CHR ''?'' \<or> c = CHR ''$'' \<Longrightarrow> c \<notin> set (Itoa n)"
  using string_of_nat_digits isDigit_not_marker by (auto simp: Itoa_def)

lemma Itoa_nat: "Itoa (int k) = string_of_nat k"
  by (simp add: Itoa_def)

subsection \<open>Scanning a compiled text for placeholders\<close>

lemma set_Join: "c \<in> set (strings_Join xs sep) \<Longrightarrow> (\<exists>x \<in> set xs. c \<in> set x) \<or> c \<in> set sep"
  by (induction xs sep rule: strings_Join.induct) auto

lemma head_free:
  assumes "c = CHR ''?'' \<or> c = CHR ''$''" "\<not> mentions c q"
  shows "c \<notin> set (''SELECT '' @ strings_Join (Fields q) '', '' @ '' FROM '' @ Table q)"
proof -
  have "c \<notin> set (strings_Join (Fields q) '', '')"
    using assms set_Join [of c "Fields q" "'', ''"] by (auto simp: mentions_def)
  moreover have "c \<notin> set (Table q)"
    using assms by (simp add: mentions_def)
  ultimately show ?thesis using assms(1) by auto
qed

lemma orderPart_free:
  assumes "c = CHR ''?'' \<or> c = CHR ''$''" "\<not> mentions c q"
  shows "c \<notin> set (orderPart (Orders q))"
proof -
  have "c \<notin> set (strings_Join (map (\<lambda>oc. Field_o oc @ '' '' @ Direction_o oc) (Orders q)) '', '')"
    using assms set_Join [of c "map (\<lambda>oc. Field_o oc @ '' '' @ Direction_o oc) (Orders q)" "'', ''"]
    by (auto simp: mentions_def)
  then show ?thesis using assms(1) by (auto simp: orderPart_def)
qed

lemma limitPart_free:
  assumes "c = CHR ''?'' \<or> c = CHR ''$''" "c \<notin> set kw"
  shows "c \<notin> set (limitPart kw l)"
  using assms Itoa_free [OF assms(1)] by (auto simp: limitPart_def split: option.splits)

lemma tail_free:
  assumes "c = CHR ''?'' \<or> c = CHR ''$''" "\<not> mentions c q"
  shows "c \<notin> set (tailPart q)"
proof -
  have "c \<notin> set ''LIMIT''" "c \<notin> set ''OFFSET''"
    using assms(1) by auto
  then have "c \<notin> set (limitPart ''LIMIT'' (LimitVal q))"
    "c \<notin> set (limitPart ''OFFSET'' (OffsetVal q))"
    using limitPart_free [OF assms(1)] by blast+
  then show ?thesis using orderPart_free [OF assms] by (simp add: tailPart_def)
qed

lemma tail_start: "\<not> startsWithDigit (tailPart q)"
  by (auto simp: tailPart_def orderPart_def limitPart_def startsWithDigit_def isDigit_def
      split: option.splits list.splits)

lemma clausePrefix_free:
  assumes "c = CHR ''?'' \<or> c = CHR ''$''" "\<not> mentions c q" "w \<in> set (Wheres q)"
  shows "c \<notin> set (clausePrefix w)"
  using assms by (auto simp: mentions_def clausePrefix_def)

lemma qmarkScan_free: "CHR ''?'' \<notin> set s \<Longrightarrow> qmarkScan cur (s @ t) = qmarkScan (cur @ s) t"
  by (induction s arbitrary: cur) auto

lemma qmarkScan_free_all: "CHR ''?'' \<notin> set s \<Longrightarrow> qmarkScan cur s = []"
  using qmarkScan_free [of s cur "[]"] by simp

lemma length_qmarkScan: "length (qmarkScan cur s) = count_list s CHR ''?''"
  by (induction s arbitrary: cur) auto

lemma clauseText_bound: "bound w \<Longrightarrow> clauseText ph w = clausePrefix w @ ph"
  by (simp add: clauseText_def clausePrefix_def bound_def)

lemma qmarkScan_clauses:
  assumes "\<forall>w \<in> set ws. bound w \<and> CHR ''?'' \<notin> set (clausePrefix w)" "CHR ''?'' \<notin> set rest"
  shows "qmarkScan cur (strings_Join (map (clauseText ''?'') ws) '' AND '' @ rest) =
         qmarkExpected cur ws"
  using assms(1)
proof (induction ws arbitrary: cur)
  case Nil
  then show ?case using assms(2) by (simp add: qmarkScan_free_all)
next
  case (Cons w ws)
  then have w: "bound w" "CHR ''?'' \<notin> set (clausePrefix w)" by simp_all
  show ?case
  proof (cases ws)
    case Nil
    then show ?thesis
      using w assms(2) by (simp add: clauseText_bound qmarkScan_free qmarkScan_free_all)
  next
    case (Cons v vs)
    have "strings_Join (map (clauseText ''?'') (w # ws)) '' AND '' @ rest =
        clausePrefix w @ ''?'' @ '' AND '' @ (strings_Join (map (clauseText ''?'') ws) '' AND '' @ rest)"
      using w Cons by (simp add: clauseText_bound)
    moreover have "qmarkScan '' AND '' (strings_Join (map (clauseText ''?'') ws) '' AND '' @ rest)
         = qmarkExpected '' AND '' ws"
      using Cons.IH Cons.prems by simp
    ultimately show ?thesis
      using w by (simp add: qmarkScan_free)
  qed
qed

lemma length_qmarkExpected [simp]: "length (qmarkExpected cur ws) = length ws"
  by (induction ws arbitrary: cur) auto

lemma qmarkExpected_nth:
  "i < length ws \<Longrightarrow> suffix (clausePrefix (ws ! i)) (qmarkExpected cur ws ! i)"
proof (induction ws arbitrary: cur i)
  case Nil
  then show ?case by simp
next
  case (Cons w ws)
  then show ?case by (cases i) (auto intro: suffixI)
qed

lemma noIN_filter: "noIN q \<Longrightarrow> filter bound (Wheres q) = Wheres q"
  by (simp add: noIN_def bound_def)

lemma sqlite_scan:
  assumes "noIN q" "\<not> mentions CHR ''?'' q"
  shows "qmarkScan [] (fst (SQLiteDriver_BuildQuery q)) =
         qmarkExpected (''SELECT '' @ strings_Join (Fields q) '', '' @ '' FROM '' @ Table q @
                        '' WHERE '') (Wheres q)"
proof (cases "Wheres q = []")
  case True
  have "CHR ''?'' \<notin> set (fst (SQLiteDriver_BuildQuery q))"
    using head_free [OF _ assms(2)] tail_free [OF _ assms(2)] True
    by (simp add: sqlite_text tailPart_def wherePart_def)
  then show ?thesis using True by (simp add: qmarkScan_free_all)
next
  case False
  let ?h = "''SELECT '' @ strings_Join (Fields q) '', '' @ '' FROM '' @ Table q"
  have t: "fst (SQLiteDriver_BuildQuery q) =
      (?h @ '' WHERE '') @
      (strings_Join (map (clauseText ''?'') (Wheres q)) '' AND '' @ tailPart q)"
    using False by (simp add: sqlite_text tailPart_def wherePart_def)
  have h: "CHR ''?'' \<notin> set (?h @ '' WHERE '')"
    using head_free [OF _ assms(2)] by simp
  have c: "\<forall>w \<in> set (Wheres q). bound w \<and> CHR ''?'' \<notin> set (clausePrefix w)"
    using assms clausePrefix_free [of "CHR ''?''" q] by (auto simp: noIN_def bound_def)
  have "qmarkScan [] (fst (SQLiteDriver_BuildQuery q)) =
      qmarkScan (?h @ '' WHERE '')
        (strings_Join (map (clauseText ''?'') (Wheres q)) '' AND '' @ tailPart q)"
    unfolding t using qmarkScan_free [OF h, of "[]"] by simp
  also have "\<dots> = qmarkExpected (?h @ '' WHERE '') (Wheres q)"
    using qmarkScan_clauses [OF c] tail_free [OF _ assms(2)] by simp
  finally show ?thesis by simp
qed

lemma dollarScan_free:
  "CHR ''$'' \<notin> set s \<Longrightarrow> dollarScan cur None (s @ t) = dollarScan (cur @ s) None t"
  by (induction s arbitrary: cur) auto

lemma dollarScan_free_all: "CHR ''$'' \<notin> set s \<Longrightarrow> dollarScan cur None s = []"
  using dollarScan_free [of s cur "[]"] by simp

lemma dollarScan_number_end:
  "\<not> startsWithDigit t \<Longrightarrow> dollarScan cur (Some n) t = (cur, n) # dollarScan [] None t"
  by (cases t) (auto simp: startsWithDigit_def)

lemma dollarScan_digits:
  "\<forall>c \<in> set ds. isDigit c \<Longrightarrow> \<not> startsWithDigit t \<Longrightarrow>
   dollarScan cur (Some n) (ds @ t) = (cur, digitsVal n ds) # dollarScan [] None t"
proof (induction ds arbitrary: n)
  case Nil
  then show ?case by (simp add: dollarScan_number_end digitsVal_def)
next
  case (Cons d ds)
  then show ?case by (simp add: digitsVal_def)
qed

lemma dollarScan_placeholder:
  assumes "\<not> startsWithDigit t"
  shows "dollarScan cur None (CHR ''$'' # string_of_nat k @ t) = (cur, k) # dollarScan [] None t"
proof -
  have "startsWithDigit (string_of_nat k @ t)"
    using string_of_nat_nonempty [of k] string_of_nat_digits [of k]
    by (cases "string_of_nat k") (auto simp: startsWithDigit_def)
  then have "dollarScan cur None (CHR ''$'' # string_of_nat k @ t) =
      dollarScan cur (Some 0) (string_of_nat k @ t)"
    by simp
  also have "\<dots> = (cur, digitsVal 0 (string_of_nat k)) # dollarScan [] None t"
    using dollarScan_digits [OF string_of_nat_digits assms] by simp
  finally show ?thesis by (simp add: digitsVal_string_of_nat)
qed

lemma pgParts_Cons_bound:
  "bound w \<Longrightarrow>
   pgParts (int k) (w # ws) =
     (clausePrefix w @ CHR ''$'' # string_of_nat k) # pgParts (int (Suc k)) ws"
proof -
  assume b: "bound w"
  have e: "int k + 1 = int (Suc k)" by simp
  have "pgParts (int k) (w # ws) =
      clauseText (''$'' @ Itoa (int k)) w # pgParts (int k + 1) ws"
    using b by simp
  also have "clauseText (''$'' @ Itoa (int k)) w = clausePrefix w @ CHR ''$'' # string_of_nat k"
    using b by (simp add: clauseText_bound Itoa_nat)
  finally show ?thesis unfolding e .
qed

lemma dollarScan_clauses:
  assumes "\<forall>w \<in> set ws. bound w \<and> CHR ''$'' \<notin> set (clausePrefix w)"
    "CHR ''$'' \<notin> set rest" "\<not> startsWithDigit rest"
  shows "dollarScan cur None (strings_Join (pgParts (int k) ws) '' AND '' @ rest) =
         dollarExpected cur k ws"
  using assms(1)
proof (induction ws arbitrary: cur k)
  case Nil
  then show ?case using assms(2) by (simp add: dollarScan_free_all)
next
  case step: (Cons w ws)
  then have w: "bound w" "CHR ''$'' \<notin> set (clausePrefix w)" by simp_all
  from step.prems have all: "\<forall>w \<in> set ws. bound w \<and> CHR ''$'' \<notin> set (clausePrefix w)"
    by simp
  note ih = step.IH [OF all, of "'' AND ''" "Suc k"]
  show ?case
  proof (cases ws)
    case Nil
    have "dollarScan cur None (clausePrefix w @ CHR ''$'' # string_of_nat k @ rest) =
        dollarScan (cur @ clausePrefix w) None (CHR ''$'' # string_of_nat k @ rest)"
      by (rule dollarScan_free [OF w(2)])
    also have "\<dots> = (cur @ clausePrefix w, k) # dollarScan [] None rest"
      by (rule dollarScan_placeholder [OF assms(3)])
    also have "dollarScan [] None rest = []"
      by (rule dollarScan_free_all [OF assms(2)])
    finally have "dollarScan cur None (clausePrefix w @ CHR ''$'' # string_of_nat k @ rest) =
        [(cur @ clausePrefix w, k)]" .
    moreover have "strings_Join (pgParts (int k) (w # ws)) '' AND '' @ rest =
        clausePrefix w @ CHR ''$'' # string_of_nat k @ rest"
      unfolding pgParts_Cons_bound [OF w(1)] using Nil by simp
    ultimately show ?thesis
      using Nil by simp
  next
    case (Cons v vs)
    let ?j = "strings_Join (pgParts (int (Suc k)) ws) '' AND '' @ rest"
    let ?r = "'' AND '' @ ?j"
    have ne: "pgParts (int (Suc k)) ws \<noteq> []" using Cons by simp
    have t: "strings_Join (pgParts (int k) (w # ws)) '' AND '' @ rest =
        clausePrefix w @ CHR ''$'' # string_of_nat k @ ?r"
      unfolding pgParts_Cons_bound [OF w(1)] Join_Cons [OF ne] by simp
    have nd: "\<not> startsWithDigit ?r"
      by (simp add: startsWithDigit_def isDigit_def)
    have "dollarScan cur None (clausePrefix w @ CHR ''$'' # string_of_nat k @ ?r) =
        dollarScan (cur @ clausePrefix w) None (CHR ''$'' # string_of_nat k @ ?r)"
      by (rule dollarScan_free [OF w(2)])
    also have "\<dots> = (cur @ clausePrefix w, k) # dollarScan [] None ?r"
      by (rule dollarScan_placeholder [OF nd])
    also have "dollarScan [] None ?r = dollarScan ([] @ '' AND '') None ?j"
      by (rule dollarScan_free) simp
    also have "\<dots> = dollarExpected '' AND '' (Suc k) ws"
      using ih by simp
    finally show ?thesis
      unfolding t by simp
  qed
qed

lemma snd_dollarExpected: "map snd (dollarExpected cur k ws) = [k..<k + length ws]"
proof (induction ws arbitrary: cur k)
  case Nil
  then show ?case by simp
next
  case (Cons w ws)
  then show ?case by (simp add: upt_rec)
qed

lemma length_dollarExpected [simp]: "length (dollarExpected cur k ws) = length ws"
  by (induction ws arbitrary: cur k) auto

lemma dollarExpected_nth:
  "i < length ws \<Longrightarrow> suffix (clausePrefix (ws ! i)) (fst (dollarExpected cur k ws ! i))"
proof (induction ws arbitrary: cur k i)
  case Nil
  then show ?case by simp
next
  case (Cons w ws)
  then show ?case by (cases i) (auto intro: suffixI)
qed

lemma postgres_scan:
  assumes "noIN q" "\<not> mentions CHR ''$'' q"
  shows "dollarScan [] None (fst (PostgresDriver_BuildQuery q)) =
         dollarExpected (''SELECT '' @ strings_Join (Fields q) '', '' @ '' FROM '' @ Table q @
                         '' WHERE '') 1 (Wheres q)"
proof (cases "Wheres q = []")
  case True
  have "CHR ''$'' \<notin> set (fst (PostgresDriver_BuildQuery q))"
    using head_free [OF _ assms(2)] tail_free [OF _ assms(2)] True
    by (simp add: postgres_text tailPart_def wherePart_def)
  then show ?thesis using True by (simp add: dollarScan_free_all)
next
  case False
  let ?h = "''SELECT '' @ strings_Join (Fields q) '', '' @ '' FROM '' @ Table q"
  have t: "fst (PostgresDriver_BuildQuery q) =
      (?h @ '' WHERE '') @
      (strings_Join (pgParts (int 1) (Wheres q)) '' AND '' @ tailPart q)"
    using False by (simp add: postgres_text tailPart_def wherePart_def)
  have h: "CHR ''$'' \<notin> set (?h @ '' WHERE '')"
    using head_free [OF _ assms(2)] by simp
  have c: "\<forall>w \<in> set (Wheres q). bound w \<and> CHR ''$'' \<notin> set (clausePrefix w)"
    using assms clausePrefix_free [of "CHR ''$''" q] by (auto simp: noIN_def bound_def)
  have "dollarScan [] None (fst (PostgresDriver_BuildQuery q)) =
      dollarScan (?h @ '' WHERE '') None
        (strings_Join (pgParts (int 1) (Wheres q)) '' AND '' @ tailPart q)"
    unfolding t using dollarScan_free [OF h, of "[]"] by simp
  also have "\<dots> = dollarExpected (?h @ '' WHERE '') 1 (Wheres q)"
  proof -
    have "CHR ''$'' \<notin> set (tailPart q)"
      using tail_free [OF _ assms(2)] by simp
    from dollarScan_clauses [OF c this tail_start, of "?h @ '' WHERE ''" 1]
    show ?thesis .
  qed
  finally show ?thesis by simp
qed

subsection \<open>The parser's scan loop\<close>








subsection \<open>Type mapper\<close>

text \<open>
  C2 (as amended). The type mapper is total; one trailing \<open>?\<close> is stripped before the
  lookup; the result follows \<open>typeTable\<close>, whose 64-bit integer row is keyed by the
  Go name \<open>int64\<close> (not \<open>Int64\<close>) and whose other rows also accept the Go type
  names; every other name maps to \<open>TEXT\<close> in every dialect.
\<close>

theorem GetSQLType_follows_table:
  "GetSQLType t ''postgres'' = fst (tableLookup typeTable (strings_TrimSuffix t ''?'')) \<and>
   GetSQLType t ''mysql'' = fst (snd (tableLookup typeTable (strings_TrimSuffix t ''?''))) \<and>
   GetSQLType t ''sqlite'' = snd (snd (tableLookup typeTable (strings_TrimSuffix t ''?''))) \<and>
   strings_TrimSuffix (b @ ''?'') ''?'' = b \<and>
   strings_TrimSuffix ''Int'' ''?'' = ''Int''"
  by (simp add: GetSQLType_def getPostgresType_def getMySQLType_def getSQLiteType_def
      typeTable_def strings_TrimSuffix_def strings_HasSuffix_def)

text \<open>
  The claim as stated fails: the abstract type \<open>Int64\<close> is in no case of the postgres
  mapper, so it falls to the default and is not \<open>BIGINT\<close>.
\<close>

theorem GetSQLType_Int64_not_BIGINT: "GetSQLType ''Int64'' ''postgres'' \<noteq> ''BIGINT''"
  by (simp add: GetSQLType_def getPostgresType_def strings_TrimSuffix_def
      strings_HasSuffix_def)

subsection \<open>Scenario: one filter, two dialects\<close>

text \<open>
  C3. A query on table \<open>users\<close> with the default projection and the single filter
  (\<open>age\<close>, \<open>>\<close>, 18), not negated, compiles under sqlite to
  \<open>SELECT * FROM users WHERE age > ?\<close> with arguments \<open>[18]\<close> and under postgres to
  \<open>SELECT * FROM users WHERE age > $1\<close> with arguments \<open>[18]\<close>.
\<close>

theorem scenario_age_filter:
  "SQLiteDriver_BuildQuery
     (query (Where (NewQueryExecutor ''users'' mt) ''age'' ''>'' (VInt 18))) =
     (''SELECT * FROM users WHERE age > ?'', [VInt 18]) \<and>
   PostgresDriver_BuildQuery
     (query (Where (NewQueryExecutor ''users'' mt) ''age'' ''>'' (VInt 18))) =
     (''SELECT * FROM users WHERE age > $1'', [VInt 18])"
  by (simp add: SQLiteDriver_BuildQuery_def PostgresDriver_BuildQuery_def
      NewQueryExecutor_def Where_def Itoa_1)

subsection \<open>Negated filters\<close>

text \<open>
  C6. The negated filter added by \<open>WhereNot\<close> with field \<open>status\<close>, operator \<open>=\<close>
  and value \<open>"archived"\<close> compiles to the WHERE fragment \<open>status NOT = ?\<close> with the
  one bound argument \<open>"archived"\<close>. In general, in every dialect, the clause text at
  the position of a negated clause whose operator is not \<open>IN\<close> is
  \<open><field> NOT <operator> <placeholder>\<close>: the placeholder is \<open>?\<close> for sqlite and
  mysql, and for postgres \<open>$N\<close> with \<open>N\<close> one more than the number of bound clauses
  before it.
\<close>

theorem negated_clause_rendering:
  "SQLiteDriver_BuildQuery
     (query (WhereNot (NewQueryExecutor t mt) ''status'' ''='' (VStr ''archived''))) =
     (''SELECT * FROM '' @ t @ '' WHERE status NOT = ?'', [VStr ''archived'']) \<and>
   (i < length (Wheres q) \<and> Not_w (Wheres q ! i) \<and> Operator_w (Wheres q ! i) \<noteq> ''IN'' \<longrightarrow>
    fst (SQLiteDriver_BuildQuery q) =
      ''SELECT '' @ strings_Join (Fields q) '', '' @ '' FROM '' @ Table q @ '' WHERE '' @
      strings_Join (fst (whereLoop (Wheres q) ([], []))) '' AND '' @
      orderPart (Orders q) @ limitPart ''LIMIT'' (LimitVal q) @
      limitPart ''OFFSET'' (OffsetVal q) \<and>
    fst (whereLoop (Wheres q) ([], [])) ! i =
      Field_w (Wheres q ! i) @ '' NOT '' @ Operator_w (Wheres q ! i) @ '' ?'' \<and>
    MySQLDriver_BuildQuery q = SQLiteDriver_BuildQuery q \<and>
    fst (PostgresDriver_BuildQuery q) =
      ''SELECT '' @ strings_Join (Fields q) '', '' @ '' FROM '' @ Table q @ '' WHERE '' @
      strings_Join (fst (pgWhereLoop (Wheres q) ([], [], 1))) '' AND '' @
      orderPart (Orders q) @ limitPart ''LIMIT'' (LimitVal q) @
      limitPart ''OFFSET'' (OffsetVal q) \<and>
    fst (pgWhereLoop (Wheres q) ([], [], 1)) ! i =
      Field_w (Wheres q ! i) @ '' NOT '' @ Operator_w (Wheres q ! i) @ '' $'' @
      Itoa (1 + int (length (filter bound (take i (Wheres q))))))"
proof (intro conjI impI)
  show "SQLiteDriver_BuildQuery
     (query (WhereNot (NewQueryExecutor t mt) ''status'' ''='' (VStr ''archived''))) =
     (''SELECT * FROM '' @ t @ '' WHERE status NOT = ?'', [VStr ''archived''])"
    by (simp add: SQLiteDriver_BuildQuery_def NewQueryExecutor_def WhereNot_def)
next
  assume a: "i < length (Wheres q) \<and> Not_w (Wheres q ! i) \<and> Operator_w (Wheres q ! i) \<noteq> ''IN''"
  then have ne: "Wheres q \<noteq> []" by auto
  show "fst (SQLiteDriver_BuildQuery q) =
      ''SELECT '' @ strings_Join (Fields q) '', '' @ '' FROM '' @ Table q @ '' WHERE '' @
      strings_Join (fst (whereLoop (Wheres q) ([], []))) '' AND '' @
      orderPart (Orders q) @ limitPart ''LIMIT'' (LimitVal q) @
      limitPart ''OFFSET'' (OffsetVal q)"
    using ne by (simp add: sqlite_text wherePart_def whereLoop_eq)
  show "fst (whereLoop (Wheres q) ([], [])) ! i =
      Field_w (Wheres q ! i) @ '' NOT '' @ Operator_w (Wheres q ! i) @ '' ?''"
    using a by (simp add: whereLoop_eq clauseText_negated)
  show "MySQLDriver_BuildQuery q = SQLiteDriver_BuildQuery q"
    by (simp only: mysql_eq_sqlite)
  show "fst (PostgresDriver_BuildQuery q) =
      ''SELECT '' @ strings_Join (Fields q) '', '' @ '' FROM '' @ Table q @ '' WHERE '' @
      strings_Join (fst (pgWhereLoop (Wheres q) ([], [], 1))) '' AND '' @
      orderPart (Orders q) @ limitPart ''LIMIT'' (LimitVal q) @
      limitPart ''OFFSET'' (OffsetVal q)"
    using ne by (simp add: postgres_text wherePart_def pgWhereLoop_eq)
  show "fst (pgWhereLoop (Wheres q) ([], [], 1)) ! i =
      Field_w (Wheres q ! i) @ '' NOT '' @ Operator_w (Wheres q ! i) @ '' $'' @
      Itoa (1 + int (length (filter bound (take i (Wheres q)))))"
    using a by (simp add: pgWhereLoop_eq pgParts_nth clauseText_negated)
qed

theorem negated_clause_rendering_witness:
  "fst (PostgresDriver_BuildQuery (query (WhereNot (Where (NewQueryExecutor ''users'' ''User'')
      ''age'' ''>'' (VInt 18)) ''status'' ''='' (VStr ''archived'')))) =
     ''SELECT * FROM users WHERE age > $1 AND status NOT = $2'' \<and>
   fst (pgWhereLoop (Wheres (query (WhereNot (Where (NewQueryExecutor ''users'' ''User'')
      ''age'' ''>'' (VInt 18)) ''status'' ''='' (VStr ''archived'')))) ([], [], 1)) ! 1 =
     ''status NOT = $2'' \<and>
   fst (MySQLDriver_BuildQuery (query (WhereNot (Where (NewQueryExecutor ''users'' ''User'')
      ''age'' ''>'' (VInt 18)) ''status'' ''='' (VStr ''archived'')))) =
     ''SELECT * FROM users WHERE age > ? AND status NOT = ?'' \<and>
   fst (whereLoop (Wheres (query (WhereNot (Where (NewQueryExecutor ''users'' ''User'')
      ''age'' ''>'' (VInt 18)) ''status'' ''='' (VStr ''archived'')))) ([], [])) ! 1 =
     ''status NOT = ?''"
proof -
  let ?q = "query (WhereNot (Where (NewQueryExecutor ''users'' ''User'')
       ''age'' ''>'' (VInt 18)) ''status'' ''='' (VStr ''archived''))"
  have w: "Wheres ?q =
      [\<lparr>Field_w = ''age'', Operator_w = ''>'', Value_w = VInt 18, Not_w = False\<rparr>,
       \<lparr>Field_w = ''status'', Operator_w = ''='', Value_w = VStr ''archived'', Not_w = True\<rparr>]"
    and t: "Table ?q = ''users''" and f: "Fields ?q = [''*'']"
    and o: "Orders ?q = []" "LimitVal ?q = None" "OffsetVal ?q = None"
    by (simp_all add: NewQueryExecutor_def Where_def WhereNot_def)
  have two: "Itoa 2 = ''2''"
    by (simp add: Itoa_def string_of_nat.simps)
  have h: "1 < length (Wheres ?q) \<and> Not_w (Wheres ?q ! 1) \<and> Operator_w (Wheres ?q ! 1) \<noteq> ''IN''"
    by (simp add: w)
  from negated_clause_rendering [where i = 1 and q = ?q] h show ?thesis
    by (simp add: w t f o bound_def two Itoa_1 orderPart_def limitPart_def)
qed

subsection \<open>Count and exists\<close>

text \<open>
  C7. \<open>Count\<close> hands the collaborator the text \<open>SELECT COUNT(*) FROM <table>\<close>
  followed by the builder's own WHERE part and nothing else (no ORDER BY, LIMIT or
  OFFSET part), with the builder's own bound arguments; the where part and the
  arguments are those of the builder's own compiled query; ordering, limit and offset
  accumulated by the builder do not change the result. Without a database handle it
  reports the not-initialized error. \<open>Exists\<close> is true exactly when the count is
  greater than 0 (as a signed 64-bit integer) and returns the error of \<open>Count\<close>.
\<close>

theorem count_and_exists:
  "Count qe (Some d) =
     d (''SELECT COUNT(*) FROM '' @ Table (query qe) @
        wherePart (fst (whereLoop (Wheres (query qe)) ([], []))))
       (snd (whereLoop (Wheres (query qe)) ([], []))) \<and>
   buildSelectQuery qe =
     (''SELECT '' @ strings_Join (Fields (query qe)) '', '' @ '' FROM '' @ Table (query qe) @
      wherePart (fst (whereLoop (Wheres (query qe)) ([], []))) @
      orderPart (Orders (query qe)) @ limitPart ''LIMIT'' (LimitVal (query qe)) @
      limitPart ''OFFSET'' (OffsetVal (query qe)),
      snd (whereLoop (Wheres (query qe)) ([], []))) \<and>
   Count (OrderBy qe f dir) db = Count qe db \<and>
   Count (Limit qe n) db = Count qe db \<and>
   Count (Offset qe n) db = Count qe db \<and>
   Count qe None = (0, Some (Err ''database not initialized'')) \<and>
   fst (Exists qe db) = (0 < sint (fst (Count qe db))) \<and>
   snd (Exists qe db) = snd (Count qe db)"
proof (intro conjI)
  show "Count qe (Some d) =
     d (''SELECT COUNT(*) FROM '' @ Table (query qe) @
        wherePart (fst (whereLoop (Wheres (query qe)) ([], []))))
       (snd (whereLoop (Wheres (query qe)) ([], [])))"
    by (simp add: Count_Some whereLoop_eq)
  show "buildSelectQuery qe =
     (''SELECT '' @ strings_Join (Fields (query qe)) '', '' @ '' FROM '' @ Table (query qe) @
      wherePart (fst (whereLoop (Wheres (query qe)) ([], []))) @
      orderPart (Orders (query qe)) @ limitPart ''LIMIT'' (LimitVal (query qe)) @
      limitPart ''OFFSET'' (OffsetVal (query qe)),
      snd (whereLoop (Wheres (query qe)) ([], [])))"
    by (simp add: buildSelectQuery_def facade_eq_sqlite sqlite_text whereLoop_eq)
  show "Count (OrderBy qe f dir) db = Count qe db"
    by (rule Count_ignores) (simp_all add: OrderBy_def)
  show "Count (Limit qe n) db = Count qe db"
    by (rule Count_ignores) (simp_all add: Limit_def)
  show "Count (Offset qe n) db = Count qe db"
    by (rule Count_ignores) (simp_all add: Offset_def)
  show "Count qe None = (0, Some (Err ''database not initialized''))"
    by (simp add: Count_def)
  show "fst (Exists qe db) = (0 < sint (fst (Count qe db)))"
    by (simp add: Exists_def word_sless_alt split: prod.splits)
  show "snd (Exists qe db) = snd (Count qe db)"
    by (simp add: Exists_def split: prod.splits)
qed

subsection \<open>Table names\<close>



subsection \<open>Boolean defaults in CREATE TABLE\<close>

text \<open>
  C5 (as amended). Each \<open>CreateTable\<close> joins the column definitions of the model's
  fields, in order; the column definition of a field whose default is a boolean ends
  with its DEFAULT clause, rendered \<open>DEFAULT true\<close> or \<open>DEFAULT false\<close> (lower case,
  as Go's \<open>%t\<close> prints) under postgres and mysql, and \<open>DEFAULT 1\<close> or \<open>DEFAULT 0\<close>
  under sqlite.
\<close>

theorem boolean_default_literals:
  "PostgresDriver_CreateTable m =
     ''CREATE TABLE IF NOT EXISTS '' @ TableName m @ '' ('' @ [CHR 0x0A] @ ''  '' @
     strings_Join (map PostgresDriver_buildColumnDefinition (Fields_m m))
       ('','' @ [CHR 0x0A] @ ''  '') @ [CHR 0x0A] @ '')'' \<and>
   MySQLDriver_CreateTable m =
     ''CREATE TABLE IF NOT EXISTS '' @ TableName m @ '' ('' @ [CHR 0x0A] @ ''  '' @
     strings_Join (map MySQLDriver_buildColumnDefinition (Fields_m m))
       ('','' @ [CHR 0x0A] @ ''  '') @ [CHR 0x0A] @ '') ENGINE=InnoDB DEFAULT CHARSET=utf8mb4'' \<and>
   SQLiteDriver_CreateTable m =
     ''CREATE TABLE IF NOT EXISTS '' @ TableName m @ '' ('' @ [CHR 0x0A] @ ''  '' @
     strings_Join (map SQLiteDriver_buildColumnDefinition (Fields_m m))
       ('','' @ [CHR 0x0A] @ ''  '') @ [CHR 0x0A] @ '')'' \<and>
   suffix ('' DEFAULT '' @ (if b then ''true'' else ''false''))
     (PostgresDriver_buildColumnDefinition (f\<lparr>Default := VBool b\<rparr>)) \<and>
   suffix ('' DEFAULT '' @ (if b then ''true'' else ''false''))
     (MySQLDriver_buildColumnDefinition (f\<lparr>Default := VBool b\<rparr>)) \<and>
   suffix ('' DEFAULT '' @ (if b then ''1'' else ''0''))
     (SQLiteDriver_buildColumnDefinition (f\<lparr>Default := VBool b\<rparr>))"
proof (intro conjI)
  show "suffix ('' DEFAULT '' @ (if b then ''true'' else ''false''))
     (PostgresDriver_buildColumnDefinition (f\<lparr>Default := VBool b\<rparr>))"
    unfolding pg_col_bool fmt_t_def by (rule suffixI) (rule refl)
  show "suffix ('' DEFAULT '' @ (if b then ''true'' else ''false''))
     (MySQLDriver_buildColumnDefinition (f\<lparr>Default := VBool b\<rparr>))"
    unfolding mysql_col_bool fmt_t_def by (rule suffixI) (rule refl)
  show "suffix ('' DEFAULT '' @ (if b then ''1'' else ''0''))
     (SQLiteDriver_buildColumnDefinition (f\<lparr>Default := VBool b\<rparr>))"
    unfolding sqlite_col_bool by (rule suffixI) (rule refl)
qed (simp_all add: PostgresDriver_CreateTable_def MySQLDriver_CreateTable_def
      SQLiteDriver_CreateTable_def columnLoop_eq)

text \<open>
  The claim as stated fails: for a model with one boolean field defaulting to true the
  postgres statement carries the lower-case literal and nowhere \<open>DEFAULT TRUE\<close>.
\<close>

theorem boolean_default_not_upper_case:
  "PostgresDriver_CreateTable
     \<lparr>Name_m = ''Flag'', TableName = ''flags'',
      Fields_m = [\<lparr>Name_f = ''active'', Type_f = ''Boolean'', Optional = False,
                   Unique = False, Primary = False, AutoGen = False,
                   Default = VBool True, DatabaseType = []\<rparr>],
      Relations = []\<rparr> =
     ''CREATE TABLE IF NOT EXISTS flags ('' @ [CHR 0x0A] @
     ''  active BOOLEAN NOT NULL DEFAULT true'' @ [CHR 0x0A] @ '')'' \<and>
   \<not> sublist ''DEFAULT TRUE''
     (PostgresDriver_CreateTable
        \<lparr>Name_m = ''Flag'', TableName = ''flags'',
         Fields_m = [\<lparr>Name_f = ''active'', Type_f = ''Boolean'', Optional = False,
                      Unique = False, Primary = False, AutoGen = False,
                      Default = VBool True, DatabaseType = []\<rparr>],
         Relations = []\<rparr>)"
  by code_simp

subsection \<open>The auto-update marker\<close>

text \<open>
  C4 (what the code does at the failing input). A field declared with \<open>@updatedAt\<close>
  parses to type \<open>DateTime\<close> with the default set to the string \<open>now()\<close>, not to
  the sentinel \<open>CURRENT_TIMESTAMP\<close> that \<open>parseDefaultValue\<close> produces and the
  column builders recognise; every dialect then renders the quoted string literal
  \<open>DEFAULT 'now()'\<close> instead of \<open>DEFAULT CURRENT_TIMESTAMP\<close>.
\<close>

theorem updatedAt_default_is_quoted_now:
  "ParseFile NewParser [''model Post {'', ''  updatedAt DateTime @updatedAt'', ''}''] =
     Inr \<lparr>Models =
       [\<lparr>Name_m = ''Post'', TableName = ''posts'',
         Fields_m = [\<lparr>Name_f = ''updatedAt'', Type_f = ''DateTime'', Optional = False,
                      Unique = False, Primary = False, AutoGen = False,
                      Default = VStr ''now()'', DatabaseType = []\<rparr>],
         Relations = []\<rparr>]\<rparr> \<and>
   SQLiteDriver_buildColumnDefinition
     \<lparr>Name_f = ''updatedAt'', Type_f = ''DateTime'', Optional = False,
      Unique = False, Primary = False, AutoGen = False,
      Default = VStr ''now()'', DatabaseType = []\<rparr> =
     ''updatedAt DATETIME NOT NULL DEFAULT '' @ [CHR 0x27] @ ''now()'' @ [CHR 0x27] \<and>
   PostgresDriver_buildColumnDefinition
     \<lparr>Name_f = ''updatedAt'', Type_f = ''DateTime'', Optional = False,
      Unique = False, Primary = False, AutoGen = False,
      Default = VStr ''now()'', DatabaseType = []\<rparr> =
     ''updatedAt TIMESTAMP NOT NULL DEFAULT '' @ [CHR 0x27] @ ''now()'' @ [CHR 0x27] \<and>
   MySQLDriver_buildColumnDefinition
     \<lparr>Name_f = ''updatedAt'', Type_f = ''DateTime'', Optional = False,
      Unique = False, Primary = False, AutoGen = False,
      Default = VStr ''now()'', DatabaseType = []\<rparr> =
     ''updatedAt TIMESTAMP NOT NULL DEFAULT '' @ [CHR 0x27] @ ''now()'' @ [CHR 0x27]"
  by code_simp

subsection \<open>The IN-membership filter\<close>

text \<open>
  C10 (as amended). \<open>WhereIn field values\<close> appends the clause with operator \<open>IN\<close>
  whose value is the string \<open>(?,...,?)\<close> with exactly \<open>len(values)\<close> question marks:
  the elements themselves are discarded. In every dialect the clause text is
  \<open><field> IN (?,...,?)\<close>, spliced into the SQL, and the returned argument list is
  that of the query before the call. So the compiled text has at least \<open>len(values)\<close>
  more placeholder characters than bound arguments (\<open>?\<close> under sqlite and mysql;
  \<open>$\<close> and \<open>?\<close> together under postgres), hence strictly more whenever the value
  list is not empty.
\<close>

theorem WhereIn_binds_nothing:
  "Wheres (query (WhereIn qe f vs)) =
     Wheres (query qe) @
     [\<lparr>Field_w = f, Operator_w = ''IN'', Value_w = VStr (placeholderGroup (length vs)),
       Not_w = False\<rparr>] \<and>
   count_list (placeholderGroup n) CHR ''?'' = n \<and>
   fst (whereLoop (Wheres (query (WhereIn qe f vs))) ([], [])) =
     fst (whereLoop (Wheres (query qe)) ([], [])) @
     [f @ '' IN '' @ placeholderGroup (length vs)] \<and>
   fst (pgWhereLoop (Wheres (query (WhereIn qe f vs))) ([], [], 1)) =
     fst (pgWhereLoop (Wheres (query qe)) ([], [], 1)) @
     [f @ '' IN '' @ placeholderGroup (length vs)] \<and>
   snd (SQLiteDriver_BuildQuery (query (WhereIn qe f vs))) =
     snd (SQLiteDriver_BuildQuery (query qe)) \<and>
   snd (MySQLDriver_BuildQuery (query (WhereIn qe f vs))) =
     snd (MySQLDriver_BuildQuery (query qe)) \<and>
   snd (PostgresDriver_BuildQuery (query (WhereIn qe f vs))) =
     snd (PostgresDriver_BuildQuery (query qe)) \<and>
   length (snd (SQLiteDriver_BuildQuery (query (WhereIn qe f vs)))) + length vs
     \<le> count_list (fst (SQLiteDriver_BuildQuery (query (WhereIn qe f vs)))) CHR ''?'' \<and>
   length (snd (MySQLDriver_BuildQuery (query (WhereIn qe f vs)))) + length vs
     \<le> count_list (fst (MySQLDriver_BuildQuery (query (WhereIn qe f vs)))) CHR ''?'' \<and>
   length (snd (PostgresDriver_BuildQuery (query (WhereIn qe f vs)))) + length vs
     \<le> count_list (fst (PostgresDriver_BuildQuery (query (WhereIn qe f vs)))) CHR ''$'' +
        count_list (fst (PostgresDriver_BuildQuery (query (WhereIn qe f vs)))) CHR ''?'' \<and>
   (vs \<noteq> [] \<longrightarrow>
    length (snd (SQLiteDriver_BuildQuery (query (WhereIn qe f vs))))
      < count_list (fst (SQLiteDriver_BuildQuery (query (WhereIn qe f vs)))) CHR ''?'' \<and>
    length (snd (MySQLDriver_BuildQuery (query (WhereIn qe f vs))))
      < count_list (fst (MySQLDriver_BuildQuery (query (WhereIn qe f vs)))) CHR ''?'' \<and>
    length (snd (PostgresDriver_BuildQuery (query (WhereIn qe f vs))))
      < count_list (fst (PostgresDriver_BuildQuery (query (WhereIn qe f vs)))) CHR ''$'' +
        count_list (fst (PostgresDriver_BuildQuery (query (WhereIn qe f vs)))) CHR ''?'')"
proof -
  let ?q = "query (WhereIn qe f vs)"
  have s: "length (snd (SQLiteDriver_BuildQuery ?q)) + length vs
      \<le> count_list (fst (SQLiteDriver_BuildQuery ?q)) CHR ''?''"
    using sqlite_marks_ge [of ?q] by (simp add: inMarks_WhereIn)
  have p: "length (snd (PostgresDriver_BuildQuery ?q)) + length vs
      \<le> count_list (fst (PostgresDriver_BuildQuery ?q)) CHR ''$'' +
         count_list (fst (PostgresDriver_BuildQuery ?q)) CHR ''?''"
    using postgres_marks_ge [of ?q] by (simp add: inMarks_WhereIn)
  have l: "vs \<noteq> [] \<Longrightarrow> 0 < length vs" by simp
  have a: "Wheres ?q = Wheres (query qe) @
     [\<lparr>Field_w = f, Operator_w = ''IN'', Value_w = VStr (placeholderGroup (length vs)),
       Not_w = False\<rparr>]"
    by (rule WhereIn_Wheres)
  have b: "fst (whereLoop (Wheres ?q) ([], [])) =
     fst (whereLoop (Wheres (query qe)) ([], [])) @ [f @ '' IN '' @ placeholderGroup (length vs)]"
    by (simp add: a whereLoop_eq clauseText_IN)
  have c: "fst (pgWhereLoop (Wheres ?q) ([], [], 1)) =
     fst (pgWhereLoop (Wheres (query qe)) ([], [], 1)) @
     [f @ '' IN '' @ placeholderGroup (length vs)]"
    by (simp add: a pgWhereLoop_eq pgParts_append clauseText_IN bound_def)
  have d: "snd (SQLiteDriver_BuildQuery ?q) = snd (SQLiteDriver_BuildQuery (query qe))"
    by (simp add: sqlite_text filter_bound_WhereIn)
  have e: "snd (PostgresDriver_BuildQuery ?q) = snd (PostgresDriver_BuildQuery (query qe))"
    by (simp add: postgres_text filter_bound_WhereIn)
  show ?thesis
    unfolding mysql_eq_sqlite
    using s p l a b c d e count_placeholderGroup [of n] by (intro conjI impI) linarith+
qed

theorem WhereIn_binds_nothing_witness:
  "SQLiteDriver_BuildQuery
     (query (WhereIn (Where (NewQueryExecutor ''users'' ''User'') ''age'' ''>'' (VInt 18))
        ''id'' [VInt 1, VInt 2, VInt 3])) =
     (''SELECT * FROM users WHERE age > ? AND id IN (?,?,?)'', [VInt 18]) \<and>
   length (snd (SQLiteDriver_BuildQuery
     (query (WhereIn (Where (NewQueryExecutor ''users'' ''User'') ''age'' ''>'' (VInt 18))
        ''id'' [VInt 1, VInt 2, VInt 3]))))
   < count_list (fst (SQLiteDriver_BuildQuery
     (query (WhereIn (Where (NewQueryExecutor ''users'' ''User'') ''age'' ''>'' (VInt 18))
        ''id'' [VInt 1, VInt 2, VInt 3])))) CHR ''?''"
proof -
  have v: "[VInt 1, VInt 2, VInt 3] \<noteq> []" by simp
  have t: "SQLiteDriver_BuildQuery
     (query (WhereIn (Where (NewQueryExecutor ''users'' ''User'') ''age'' ''>'' (VInt 18))
        ''id'' [VInt 1, VInt 2, VInt 3])) =
     (''SELECT * FROM users WHERE age > ? AND id IN (?,?,?)'', [VInt 18])"
    by code_simp
  from WhereIn_binds_nothing [where qe = "Where (NewQueryExecutor ''users'' ''User'') ''age'' ''>'' (VInt 18)"
      and f = "''id''" and vs = "[VInt 1, VInt 2, VInt 3]" and n = 0] v t
  show ?thesis by blast
qed

text \<open>
  The claim as stated fails for an empty value list: the group is \<open>()\<close>, and the
  compiled text has as many placeholder characters as bound arguments, namely none.
\<close>

theorem WhereIn_empty_list_not_more:
  "SQLiteDriver_BuildQuery (query (WhereIn (NewQueryExecutor ''users'' ''User'') ''id'' [])) =
     (''SELECT * FROM users WHERE id IN ()'', []) \<and>
   \<not> length (snd (SQLiteDriver_BuildQuery
        (query (WhereIn (NewQueryExecutor ''users'' ''User'') ''id'' []))))
     < count_list (fst (SQLiteDriver_BuildQuery
        (query (WhereIn (NewQueryExecutor ''users'' ''User'') ''id'' [])))) CHR ''?''"
  by code_simp

subsection \<open>Placeholders and arguments\<close>

text \<open>
  C1 (as amended). For every query with no where-clause whose operator is \<open>IN\<close>:
  if no text of the query that is copied into the SQL (table, projected fields,
  where fields and operators, order fields and directions) contains the character
  \<open>?\<close>, then the sqlite and mysql compilers return a text whose number of \<open>?\<close>
  placeholders equals the length of the argument list, the arguments are the values
  of the where-clauses in order, and the \<open>i\<close>-th placeholder, read left to right,
  directly follows the \<open><field> [NOT] <operator> \<close> text of the \<open>i\<close>-th clause; if
  none of those texts contains \<open>$\<close>, the same holds for the postgres compiler, whose
  placeholders read left to right are numbered \<open>1, ..., n\<close>.
\<close>

theorem placeholders_match_arguments:
  assumes "noIN q"
  shows
    "(\<not> mentions CHR ''?'' q \<longrightarrow>
        count_list (fst (SQLiteDriver_BuildQuery q)) CHR ''?'' =
          length (snd (SQLiteDriver_BuildQuery q)) \<and>
        length (qmarkScan [] (fst (SQLiteDriver_BuildQuery q))) =
          length (snd (SQLiteDriver_BuildQuery q)) \<and>
        snd (SQLiteDriver_BuildQuery q) = map Value_w (Wheres q) \<and>
        (\<forall>i < length (Wheres q).
           suffix (clausePrefix (Wheres q ! i))
             (qmarkScan [] (fst (SQLiteDriver_BuildQuery q)) ! i)) \<and>
        MySQLDriver_BuildQuery q = SQLiteDriver_BuildQuery q) \<and>
     (\<not> mentions CHR ''$'' q \<longrightarrow>
        map snd (dollarScan [] None (fst (PostgresDriver_BuildQuery q))) =
          [1..<Suc (length (snd (PostgresDriver_BuildQuery q)))] \<and>
        snd (PostgresDriver_BuildQuery q) = map Value_w (Wheres q) \<and>
        (\<forall>i < length (Wheres q).
           suffix (clausePrefix (Wheres q ! i))
             (fst (dollarScan [] None (fst (PostgresDriver_BuildQuery q)) ! i))))"
proof (intro conjI impI allI)
  assume m: "\<not> mentions CHR ''?'' q"
  note s = sqlite_scan [OF assms m]
  show a: "snd (SQLiteDriver_BuildQuery q) = map Value_w (Wheres q)"
    using assms by (simp add: sqlite_text noIN_filter)
  show l: "length (qmarkScan [] (fst (SQLiteDriver_BuildQuery q))) =
          length (snd (SQLiteDriver_BuildQuery q))"
    by (simp add: s a)
  then show "count_list (fst (SQLiteDriver_BuildQuery q)) CHR ''?'' =
          length (snd (SQLiteDriver_BuildQuery q))"
    by (simp add: length_qmarkScan)
  show "MySQLDriver_BuildQuery q = SQLiteDriver_BuildQuery q"
    by (simp only: mysql_eq_sqlite)
  fix i assume "i < length (Wheres q)"
  then show "suffix (clausePrefix (Wheres q ! i))
             (qmarkScan [] (fst (SQLiteDriver_BuildQuery q)) ! i)"
    unfolding s by (rule qmarkExpected_nth)
next
  assume m: "\<not> mentions CHR ''$'' q"
  note s = postgres_scan [OF assms m]
  show a: "snd (PostgresDriver_BuildQuery q) = map Value_w (Wheres q)"
    using assms by (simp add: postgres_text noIN_filter)
  show "map snd (dollarScan [] None (fst (PostgresDriver_BuildQuery q))) =
          [1..<Suc (length (snd (PostgresDriver_BuildQuery q)))]"
    by (simp add: s a snd_dollarExpected)
  fix i assume "i < length (Wheres q)"
  then show "suffix (clausePrefix (Wheres q ! i))
             (fst (dollarScan [] None (fst (PostgresDriver_BuildQuery q)) ! i))"
    unfolding s by (rule dollarExpected_nth)
qed

theorem placeholders_match_arguments_witness:
  "noIN exampleQuery \<and> \<not> mentions CHR ''?'' exampleQuery \<and> \<not> mentions CHR ''$'' exampleQuery \<and>
   fst (SQLiteDriver_BuildQuery exampleQuery) =
     ''SELECT * FROM users WHERE age > ? AND status NOT = ? ORDER BY name DESC LIMIT 10'' \<and>
   count_list (fst (SQLiteDriver_BuildQuery exampleQuery)) CHR ''?'' =
     length (snd (SQLiteDriver_BuildQuery exampleQuery)) \<and>
   snd (SQLiteDriver_BuildQuery exampleQuery) = [VInt 18, VStr ''archived''] \<and>
   suffix ''status NOT = '' (qmarkScan [] (fst (SQLiteDriver_BuildQuery exampleQuery)) ! 1) \<and>
   fst (PostgresDriver_BuildQuery exampleQuery) =
     ''SELECT * FROM users WHERE age > $1 AND status NOT = $2 ORDER BY name DESC LIMIT 10'' \<and>
   map snd (dollarScan [] None (fst (PostgresDriver_BuildQuery exampleQuery))) = [1, 2] \<and>
   snd (PostgresDriver_BuildQuery exampleQuery) = [VInt 18, VStr ''archived''] \<and>
   suffix ''status NOT = ''
     (fst (dollarScan [] None (fst (PostgresDriver_BuildQuery exampleQuery)) ! 1))"
proof -
  have h: "noIN exampleQuery" by code_simp
  have m1: "\<not> mentions CHR ''?'' exampleQuery" by code_simp
  have m2: "\<not> mentions CHR ''$'' exampleQuery" by code_simp
  have w: "Wheres exampleQuery =
      [\<lparr>Field_w = ''age'', Operator_w = ''>'', Value_w = VInt 18, Not_w = False\<rparr>,
       \<lparr>Field_w = ''status'', Operator_w = ''='', Value_w = VStr ''archived'', Not_w = True\<rparr>]"
    by (simp add: exampleQuery_def)
  have cp: "clausePrefix (Wheres exampleQuery ! 1) = ''status NOT = ''"
    by (simp add: w clausePrefix_def)
  have t1: "fst (SQLiteDriver_BuildQuery exampleQuery) =
     ''SELECT * FROM users WHERE age > ? AND status NOT = ? ORDER BY name DESC LIMIT 10''"
    by code_simp
  have t2: "fst (PostgresDriver_BuildQuery exampleQuery) =
     ''SELECT * FROM users WHERE age > $1 AND status NOT = $2 ORDER BY name DESC LIMIT 10''"
    by code_simp
  note t = placeholders_match_arguments [OF h]
  from t m1 have a:
    "count_list (fst (SQLiteDriver_BuildQuery exampleQuery)) CHR ''?'' =
       length (snd (SQLiteDriver_BuildQuery exampleQuery))"
    "snd (SQLiteDriver_BuildQuery exampleQuery) = map Value_w (Wheres exampleQuery)"
    "\<forall>i < length (Wheres exampleQuery).
       suffix (clausePrefix (Wheres exampleQuery ! i))
         (qmarkScan [] (fst (SQLiteDriver_BuildQuery exampleQuery)) ! i)"
    by blast+
  from t m2 have b:
    "map snd (dollarScan [] None (fst (PostgresDriver_BuildQuery exampleQuery))) =
       [1..<Suc (length (snd (PostgresDriver_BuildQuery exampleQuery)))]"
    "snd (PostgresDriver_BuildQuery exampleQuery) = map Value_w (Wheres exampleQuery)"
    "\<forall>i < length (Wheres exampleQuery).
       suffix (clausePrefix (Wheres exampleQuery ! i))
         (fst (dollarScan [] None (fst (PostgresDriver_BuildQuery exampleQuery)) ! i))"
    by blast+
  have a3: "suffix ''status NOT = '' (qmarkScan [] (fst (SQLiteDriver_BuildQuery exampleQuery)) ! 1)"
    using a(3) [rule_format, of 1] by (simp only: cp) (simp add: w)
  have b3: "suffix ''status NOT = ''
      (fst (dollarScan [] None (fst (PostgresDriver_BuildQuery exampleQuery)) ! 1))"
    using b(3) [rule_format, of 1] by (simp only: cp) (simp add: w)
  have a2: "snd (SQLiteDriver_BuildQuery exampleQuery) = [VInt 18, VStr ''archived'']"
    using a(2) by (simp add: w)
  have b2: "snd (PostgresDriver_BuildQuery exampleQuery) = [VInt 18, VStr ''archived'']"
    using b(2) by (simp add: w)
  have b1: "map snd (dollarScan [] None (fst (PostgresDriver_BuildQuery exampleQuery))) = [1, 2]"
    using b(1) by (simp add: b2 upt_rec)
  show ?thesis
    using h m1 m2 t1 t2 a(1) a2 a3 b1 b2 b3 by (intro conjI)
qed

text \<open>
  The claim as stated fails: a projection selected as \<open>?\<close> (or \<open>$1\<close> under postgres)
  is copied into the text, which then has one placeholder and no argument.
\<close>

theorem placeholder_in_projection_unbound:
  "SQLiteDriver_BuildQuery (query (Select (NewQueryExecutor ''users'' ''User'') [''?''])) =
     (''SELECT ? FROM users'', []) \<and>
   count_list (fst (SQLiteDriver_BuildQuery
       (query (Select (NewQueryExecutor ''users'' ''User'') [''?''])))) CHR ''?''
     \<noteq> length (snd (SQLiteDriver_BuildQuery
       (query (Select (NewQueryExecutor ''users'' ''User'') [''?''])))) \<and>
   PostgresDriver_BuildQuery (query (Select (NewQueryExecutor ''users'' ''User'') [''$1''])) =
     (''SELECT $1 FROM users'', []) \<and>
   length (dollarScan [] None (fst (PostgresDriver_BuildQuery
       (query (Select (NewQueryExecutor ''users'' ''User'') [''$1''])))))
     \<noteq> length (snd (PostgresDriver_BuildQuery
       (query (Select (NewQueryExecutor ''users'' ''User'') [''$1'']))))"
  by code_simp


subsection \<open>Parse errors\<close>




end
